theory Spec2Isabelle
  imports Main
begin

section \<open>Python strings\<close>

text \<open>
  The program works on Python \<open>str\<close> values: it splits them on one character, tests a
  prefix and builds messages and command lines with f-strings.  A \<open>str\<close> is a
  \<^typ>\<open>string\<close> here; the paths and names the program handles are ASCII.
\<close>

text \<open>\<open>s.split(c)\<close> for a separator of one character: never empty, \<open>"".split(c) == [""]\<close>.\<close>

fun py_split :: "char \<Rightarrow> string \<Rightarrow> string list" where
  "py_split c [] = [[]]"
| "py_split c (x # xs) =
     (if x = c then [] # py_split c xs
      else (case py_split c xs of
              [] \<Rightarrow> [[x]]
            | w # ws \<Rightarrow> (x # w) # ws))"

text \<open>\<open>s.startswith(p)\<close>.\<close>

definition startswith :: "string \<Rightarrow> string \<Rightarrow> bool" where
  "startswith s p = (take (length p) s = p)"

text \<open>\<open>sep.join(xs)\<close>.\<close>

fun join :: "string \<Rightarrow> string list \<Rightarrow> string" where
  "join sep [] = []"
| "join sep [x] = x"
| "join sep (x # y # ys) = x @ sep @ join sep (y # ys)"

definition nl :: string where
  "nl = [CHR 0x0A]"

definition quote :: "string \<Rightarrow> string" where
  "quote s = CHR 0x27 # s @ [CHR 0x27]"

text \<open>
  What an f-string prints for a list of strings, \<open>['a', 'b']\<close>; right for strings
  without quotes, backslashes and control characters, as the names of the compose
  files are.
\<close>

definition repr_list :: "string list \<Rightarrow> string" where
  "repr_list xs = ''['' @ join '', '' (map quote xs) @ '']''"

section \<open>Time stamps\<close>

record datetime =
  year :: nat
  month :: nat
  day :: nat
  hour :: nat
  minute :: nat
  second :: nat

definition digit :: "nat \<Rightarrow> char" where
  "digit n = ''0123456789'' ! (n mod 10)"

definition digits2 :: "nat \<Rightarrow> string" where
  "digits2 n = [digit (n div 10), digit n]"

definition digits4 :: "nat \<Rightarrow> string" where
  "digits4 n = [digit (n div 1000), digit (n div 100), digit (n div 10), digit n]"

text \<open>
  \<open>now.strftime('%Y%m%d_%H%M%S_utc')\<close>, for the years 1000 to 9999 (a current date is
  one of them): four digits of year, two of every other field.
\<close>

definition strftime_utc :: "datetime \<Rightarrow> string" where
  "strftime_utc t =
     digits4 (year t) @ digits2 (month t) @ digits2 (day t) @ ''_'' @
     digits2 (hour t) @ digits2 (minute t) @ digits2 (second t) @ ''_utc''"

section \<open>The compose file\<close>

text \<open>
  \<open>yaml.safe_load\<close> gives a tree of mappings and sequences.  The program reads the key
  \<open>services\<close> of the top mapping, iterates over the service names, and reads the key
  \<open>volumes\<close> of each service, a sequence of strings \<open>host:container[:mode]\<close>.  A key
  that may be absent is an option; the mapping of services keeps the order of the
  document.  On a document of another shape (no mapping at the top, a volume written
  as a mapping) the program raises; such a document is an error of the load here.
\<close>

record service =
  volumes :: "string list option"

record compose =
  services :: "(string \<times> service) list option"

section \<open>The host and the process\<close>

text \<open>
  The operating system is a black box the program asks questions: every field of
  \<open>host\<close> is one query of the source, answered for a working directory (the first
  argument) and a path as the program writes it.  A query that can raise answers
  \<open>None\<close> where it does.
\<close>

datatype error =
  SysExit nat
| CalledProcessError
| OSError
| KeyError
| TypeError
| YAMLError

record host =
  isfile :: "string \<Rightarrow> string \<Rightarrow> bool"
  isdir :: "string \<Rightarrow> string \<Rightarrow> bool"
  chdir_to :: "string \<Rightarrow> string \<Rightarrow> string option"
  stat_uid :: "string \<Rightarrow> string \<Rightarrow> nat option"
  getpwuid :: "nat \<Rightarrow> string option"
  listdir :: "string \<Rightarrow> string \<Rightarrow> string list option"
  load_yaml :: "string \<Rightarrow> string \<Rightarrow> error + compose"
  abspath :: "string \<Rightarrow> string \<Rightarrow> string"
  now_utc :: datetime

text \<open>
  What the process does that can be seen from outside: a line printed, and a command
  run with \<open>subprocess.check_call\<close>, with the working directory it is run in.
\<close>

datatype event =
  Print string
| Exec string "string list"

record state =
  cwd :: string
  host :: host
  trace :: "event list"

text \<open>
  A command changes the host, or fails: \<open>check_call\<close> raises when the command returns
  a status other than zero or cannot be started.  What a command does is not the
  program's: it is the parameter \<open>run\<close> of every function that starts one.
\<close>

type_synonym runner = "string \<Rightarrow> string list \<Rightarrow> host \<Rightarrow> error + host"

type_synonym 'a prog = "state \<Rightarrow> (error + 'a) \<times> state"

definition ret :: "'a \<Rightarrow> 'a prog" where
  "ret x s = (Inr x, s)"

definition raise :: "error \<Rightarrow> 'a prog" where
  "raise e s = (Inl e, s)"

definition bind :: "'a prog \<Rightarrow> ('a \<Rightarrow> 'b prog) \<Rightarrow> 'b prog" where
  "bind m f s = (case m s of (Inl e, s') \<Rightarrow> (Inl e, s') | (Inr x, s') \<Rightarrow> f x s')"

definition seq :: "unit prog \<Rightarrow> 'b prog \<Rightarrow> 'b prog" where
  "seq m k = bind m (\<lambda>_. k)"

subsection \<open>The library calls of the source\<close>

definition print_line :: "string \<Rightarrow> unit prog" where
  "print_line msg s = (Inr (), s\<lparr>trace := trace s @ [Print msg]\<rparr>)"

definition sys_exit :: "nat \<Rightarrow> 'a prog" where
  "sys_exit n = raise (SysExit n)"

definition os_getcwd :: "string prog" where
  "os_getcwd s = (Inr (cwd s), s)"

definition os_chdir :: "string \<Rightarrow> unit prog" where
  "os_chdir path s =
     (case chdir_to (host s) (cwd s) path of
        None \<Rightarrow> (Inl OSError, s)
      | Some d \<Rightarrow> (Inr (), s\<lparr>cwd := d\<rparr>))"

definition os_path_isfile :: "string \<Rightarrow> bool prog" where
  "os_path_isfile path s = (Inr (isfile (host s) (cwd s) path), s)"

definition os_path_isdir :: "string \<Rightarrow> bool prog" where
  "os_path_isdir path s = (Inr (isdir (host s) (cwd s) path), s)"

definition os_path_abspath :: "string option \<Rightarrow> string prog" where
  "os_path_abspath path s =
     (case path of
        None \<Rightarrow> (Inl TypeError, s)
      | Some p \<Rightarrow> (Inr (abspath (host s) (cwd s) p), s))"

definition os_listdir :: "string \<Rightarrow> string list prog" where
  "os_listdir path s =
     (case listdir (host s) (cwd s) path of
        None \<Rightarrow> (Inl OSError, s)
      | Some entries \<Rightarrow> (Inr entries, s))"

text \<open>\<open>pwd.getpwuid(os.stat(path).st_uid).pw_name\<close>.\<close>

definition owner_of :: "string \<Rightarrow> string prog" where
  "owner_of path s =
     (case stat_uid (host s) (cwd s) path of
        None \<Rightarrow> (Inl OSError, s)
      | Some uid \<Rightarrow>
          (case getpwuid (host s) uid of
             None \<Rightarrow> (Inl KeyError, s)
           | Some pw_name \<Rightarrow> (Inr pw_name, s)))"

text \<open>\<open>open(compose_file)\<close> and \<open>yaml.safe_load\<close>.\<close>

definition safe_load :: "string \<Rightarrow> compose prog" where
  "safe_load path s =
     (case load_yaml (host s) (cwd s) path of
        Inl e \<Rightarrow> (Inl e, s)
      | Inr yaml_data \<Rightarrow> (Inr yaml_data, s))"

definition datetime_now :: "datetime prog" where
  "datetime_now s = (Inr (now_utc (host s)), s)"

definition check_call :: "runner \<Rightarrow> string list \<Rightarrow> unit prog" where
  "check_call run args s =
     (case run (cwd s) args (host s) of
        Inl e \<Rightarrow> (Inl e, s\<lparr>trace := trace s @ [Exec (cwd s) args]\<rparr>)
      | Inr h \<Rightarrow> (Inr (), s\<lparr>host := h, trace := trace s @ [Exec (cwd s) args]\<rparr>))"

section \<open>The program\<close>

text \<open>
  The functions of \<open>docker_deploy.py\<close> in the order of the source, from
  \<open>change_cwd\<close> to \<open>deploy_action\<close>.  \<open>main\<close>, which parses the command line
  and checks the membership in the \<open>docker\<close> group before it calls one of the
  actions, is left out.
\<close>

definition COMPOSE_FILES :: "string list" where
  "COMPOSE_FILES =
     [''./docker-compose.yml'', ''./docker-compose.yaml'', ''./compose.yml'', ''./compose.yaml'']"

definition change_cwd :: "string option \<Rightarrow> string prog" where
  "change_cwd path =
     bind os_getcwd (\<lambda>old_cwd.
       (case path of
          None \<Rightarrow> ret old_cwd
        | Some p \<Rightarrow> seq (os_chdir p) (ret old_cwd)))"

text \<open>
  The loop \<open>for compose in COMPOSE_FILES: if os.path.isfile(compose): ... break\<close> of
  \<open>volumes_from_compose_file\<close> and \<open>check_compose_file\<close>: the first name that is a
  regular file, \<open>None\<close> when the loop reaches its \<open>else\<close>.
\<close>

fun find_compose :: "string list \<Rightarrow> string option prog" where
  "find_compose [] = ret None"
| "find_compose (compose_file # rest) =
     bind (os_path_isfile compose_file) (\<lambda>found.
       if found then ret (Some compose_file) else find_compose rest)"

text \<open>The body of the loop over the volumes of one service.\<close>

definition volume_step :: "string \<Rightarrow> (string \<times> string) list \<Rightarrow> (string \<times> string) list prog" where
  "volume_step volume vols =
     (let volume_path = hd (py_split CHR '':'' volume) in
      bind (os_path_isdir volume_path) (\<lambda>is_dir.
        if \<not> is_dir then ret (vols @ [(volume_path, ''root'')])
        else if \<not> startswith volume ''/opt/'' then
          seq (print_line (nl @ ''WARNING: Skipping volume, must start with /opt/ : '' @ volume_path @ nl))
              (ret vols)
        else
          bind (owner_of volume_path) (\<lambda>owner_username.
            ret (vols @ [(volume_path, owner_username)]))))"

fun volume_loop :: "string list \<Rightarrow> (string \<times> string) list \<Rightarrow> (string \<times> string) list prog" where
  "volume_loop [] vols = ret vols"
| "volume_loop (volume # rest) vols =
     bind (volume_step volume vols) (\<lambda>vols'. volume_loop rest vols')"

text \<open>
  The loop over the services iterates over the keys of the mapping and reads each
  service again by its key.
\<close>

fun service_loop :: "(string \<times> service) list \<Rightarrow> string list \<Rightarrow> (string \<times> string) list \<Rightarrow>
    (string \<times> string) list prog" where
  "service_loop svcs [] vols = ret vols"
| "service_loop svcs (name # rest) vols =
     (case map_of svcs name of
        None \<Rightarrow> raise KeyError
      | Some svc \<Rightarrow>
          (case volumes svc of
             None \<Rightarrow> service_loop svcs rest vols
           | Some vs \<Rightarrow>
               bind (volume_loop vs vols) (\<lambda>vols'. service_loop svcs rest vols')))"

definition volumes_from_compose_file :: "(string \<times> string) list prog" where
  "volumes_from_compose_file =
     bind (find_compose COMPOSE_FILES) (\<lambda>found.
       case found of
         None \<Rightarrow>
           bind os_getcwd (\<lambda>here.
             seq (print_line (''Could not find any of '' @ repr_list COMPOSE_FILES @ '' in '' @ here))
                 (sys_exit 1))
       | Some compose_file \<Rightarrow>
           bind (safe_load compose_file) (\<lambda>yaml_data.
             case services yaml_data of
               None \<Rightarrow>
                 seq (print_line (''ERROR: Found compose file at '' @ compose_file @
                        '' but not '' @ quote ''services'' @ '' in it''))
                     (sys_exit 1)
             | Some svcs \<Rightarrow> service_loop svcs (map fst svcs) []))"

text \<open>The body of the loop of \<open>fix_volumes_ownership\<close>.\<close>

definition fix_volume :: "runner \<Rightarrow> string \<times> string \<Rightarrow> unit prog" where
  "fix_volume run volume =
     bind (os_path_isdir (fst volume)) (\<lambda>is_dir.
       if \<not> is_dir then
         seq (print_line (nl @ ''WARNING: You should probably create and/or set non root owner of volume folder: ''
                @ fst volume @ nl))
             (print_line (''sudo mkdir -p '' @ fst volume @ '' && sudo chown -R OWNER_HERE '' @ fst volume @ nl))
       else
         bind (owner_of (fst volume)) (\<lambda>owner_username.
           if owner_username = ''root'' then
             seq (print_line (nl @ ''WARNING: You should probably set non root owner of volume folder: ''
                    @ fst volume @ nl))
                 (print_line (''sudo chown -R OWNER_HERE '' @ fst volume @ nl))
           else check_call run [''sudo'', ''chown'', ''-R'', snd volume, fst volume]))"

fun fix_volumes_loop :: "runner \<Rightarrow> (string \<times> string) list \<Rightarrow> unit prog" where
  "fix_volumes_loop run [] = ret ()"
| "fix_volumes_loop run (volume # rest) = seq (fix_volume run volume) (fix_volumes_loop run rest)"

definition fix_volumes_ownership :: "runner \<Rightarrow> unit prog" where
  "fix_volumes_ownership run = bind volumes_from_compose_file (fix_volumes_loop run)"

definition check_compose_file :: "string option \<Rightarrow> unit prog" where
  "check_compose_file project_path =
     bind (change_cwd project_path) (\<lambda>old_cwd.
       bind (find_compose COMPOSE_FILES) (\<lambda>found.
         case found of
           None \<Rightarrow>
             seq (print_line (''ERROR: Could not find any of '' @ repr_list COMPOSE_FILES))
                 (sys_exit 1)
         | Some compose_file \<Rightarrow> os_chdir old_cwd))"

text \<open>The loop of \<open>backup\<close> over the entries of the data directory.\<close>

fun entry_loop :: "runner \<Rightarrow> string \<Rightarrow> string \<Rightarrow> string list \<Rightarrow> unit prog" where
  "entry_loop run from_path to_path [] = ret ()"
| "entry_loop run from_path to_path (entry # rest) =
     bind (owner_of (from_path @ ''/'' @ entry)) (\<lambda>owner_username.
       seq (check_call run [''sudo'', ''chown'', ''-R'', owner_username, to_path @ ''/'' @ entry])
           (entry_loop run from_path to_path rest))"

definition backup :: "runner \<Rightarrow> string option \<Rightarrow> unit prog" where
  "backup run project_path =
     bind (change_cwd project_path) (\<lambda>old_cwd.
       bind os_getcwd (\<lambda>here.
         let app_name = last (py_split CHR ''/'' here) in
         bind (os_path_isdir (''/opt/'' @ app_name @ ''/data'')) (\<lambda>is_dir.
           if \<not> is_dir then
             print_line (''Skipping backup: Nothing to backup at /opt/'' @ app_name @ ''/data'')
           else
             seq (check_call run [''sudo'', ''mkdir'', ''-p'', ''/opt/'' @ app_name @ ''/backup''])
               (bind datetime_now (\<lambda>now.
                  let from_path = ''/opt/'' @ app_name @ ''/data'';
                      to_path = ''/opt/'' @ app_name @ ''/backup/data_'' @ strftime_utc now
                  in
                  seq (check_call run [''sudo'', ''cp'', ''-r'', from_path, to_path])
                    (seq (check_call run [''sudo'', ''chown'', ''700'', to_path])
                       (bind (os_listdir from_path) (\<lambda>entries.
                          seq (entry_loop run from_path to_path entries)
                            (seq (print_line (nl @ ''Backed up data to '' @ to_path @ nl))
                               (os_chdir old_cwd))))))))))"

definition down_action :: "runner \<Rightarrow> string option \<Rightarrow> unit prog" where
  "down_action run project_path =
     seq (check_compose_file project_path)
       (bind (change_cwd project_path) (\<lambda>old_cwd.
          seq (check_call run [''docker-compose'', ''down''])
              (os_chdir old_cwd)))"

definition up_action :: "runner \<Rightarrow> string option \<Rightarrow> unit prog" where
  "up_action run project_path =
     seq (check_compose_file project_path)
       (bind (change_cwd project_path) (\<lambda>old_cwd.
          seq (fix_volumes_ownership run)
            (seq (check_call run [''docker-compose'', ''up'', ''-d''])
               (os_chdir old_cwd))))"

definition info_action :: "runner \<Rightarrow> unit prog" where
  "info_action run = check_call run [''docker'', ''ps'']"

definition build :: "runner \<Rightarrow> string option \<Rightarrow> unit prog" where
  "build run project_path =
     seq (check_compose_file project_path)
       (bind (change_cwd project_path) (\<lambda>old_cwd.
          seq (check_call run [''docker-compose'', ''build''])
              (os_chdir old_cwd)))"

definition backup_action :: "runner \<Rightarrow> string option \<Rightarrow> unit prog" where
  "backup_action run project_path =
     seq (check_compose_file project_path)
       (seq (down_action run project_path)
          (seq (backup run project_path)
             (up_action run project_path)))"

definition deploy_action :: "runner \<Rightarrow> string option \<Rightarrow> string option \<Rightarrow> unit prog" where
  "deploy_action run project_path replace_path =
     (case replace_path of
        Some rp \<Rightarrow>
          bind (os_path_abspath (Some rp)) (\<lambda>replace_abs.
            bind (os_path_abspath project_path) (\<lambda>project_abs.
              bind os_getcwd (\<lambda>old_cwd.
                seq (os_chdir ''/'')
                  (seq (check_compose_file (Some replace_abs))
                     (seq (build run (Some project_abs))
                        (seq (down_action run (Some replace_abs))
                           (bind datetime_now (\<lambda>now.
                              let to_path = replace_abs @ ''_'' @ strftime_utc now in
                              seq (check_call run [''mv'', replace_abs, to_path])
                                (seq (check_call run [''cp'', ''-r'', project_abs, replace_abs])
                                   (seq (backup_action run (Some replace_abs))
                                      (seq (os_chdir old_cwd)
                                         (seq (print_line (''Backed up project '' @ replace_abs @ '' to '' @
                                                 to_path @ '' replaced with '' @ project_abs))
                                            (print_line (''You can now delete '' @ project_abs))))))))))))))
      | None \<Rightarrow> seq (build run project_path) (backup_action run project_path))"

section \<open>Concrete hosts\<close>

text \<open>
  Hosts and runners on which the theorems below are instantiated.  \<open>run_ok\<close> is a
  runner whose commands all succeed and leave the host as it is.
\<close>

definition run_ok :: runner where
  "run_ok c args h = Inr h"

definition t0 :: datetime where
  "t0 = \<lparr>year = 2024, month = 1, day = 2, hour = 3, minute = 4, second = 5\<rparr>"

text \<open>A host without any compose file.\<close>

definition host_bare :: host where
  "host_bare =
     \<lparr>isfile = (\<lambda>c p. False),
      isdir = (\<lambda>c p. False),
      chdir_to = (\<lambda>c p. Some p),
      stat_uid = (\<lambda>c p. None),
      getpwuid = (\<lambda>u. None),
      listdir = (\<lambda>c p. None),
      load_yaml = (\<lambda>c p. Inl OSError),
      abspath = (\<lambda>c p. p),
      now_utc = t0\<rparr>"

text \<open>
  A project in \<open>/srv/app\<close> with three services.  Of the volumes, \<open>/srv/x\<close> does not
  exist, \<open>/srv/y\<close> exists outside \<open>/opt/\<close>, and \<open>/opt/app/data\<close> exists and is
  \<open>alice\<close>'s; its entry \<open>db\<close> is \<open>postgres\<close>'s.
\<close>

definition host_app :: host where
  "host_app =
     \<lparr>isfile = (\<lambda>c p. c = ''/srv/app'' \<and> p = ''./docker-compose.yml''),
      isdir = (\<lambda>c p. p = ''/opt/app/data'' \<or> p = ''/srv/y''),
      chdir_to = (\<lambda>c p. Some p),
      stat_uid = (\<lambda>c p. if p = ''/opt/app/data/db'' then Some 999 else Some 1000),
      getpwuid = (\<lambda>u. if u = 1000 then Some ''alice'' else if u = 999 then Some ''postgres'' else None),
      listdir = (\<lambda>c p. if p = ''/opt/app/data'' then Some [''db'', ''logs''] else None),
      load_yaml = (\<lambda>c p. Inr \<lparr>services = Some
         [(''web'', \<lparr>volumes = Some [''/srv/x:/x'', ''/srv/y:/y'']\<rparr>),
          (''cache'', \<lparr>volumes = None\<rparr>),
          (''db'', \<lparr>volumes = Some [''/opt/app/data:/data'']\<rparr>)]\<rparr>),
      abspath = (\<lambda>c p. p),
      now_utc = t0\<rparr>"

definition s_app :: state where
  "s_app = \<lparr>cwd = ''/srv/app'', host = host_app, trace = []\<rparr>"

definition s_home :: state where
  "s_home = \<lparr>cwd = ''/home/u'', host = host_app, trace = []\<rparr>"

text \<open>
  A project in \<open>/home/u/my_project\<close> without a data directory, named by the relative
  path \<open>./my_project\<close>: the path leads there from \<open>/home/u\<close> and nowhere from the
  project directory itself.
\<close>

definition host_rel :: host where
  "host_rel =
     \<lparr>isfile = (\<lambda>c p. c = ''/home/u/my_project'' \<and> p = ''./docker-compose.yml''),
      isdir = (\<lambda>c p. False),
      chdir_to = (\<lambda>c p. if p = ''./my_project''
                          then (if c = ''/home/u'' then Some ''/home/u/my_project'' else None)
                          else Some p),
      stat_uid = (\<lambda>c p. None),
      getpwuid = (\<lambda>u. None),
      listdir = (\<lambda>c p. None),
      load_yaml = (\<lambda>c p. Inr \<lparr>services = Some []\<rparr>),
      abspath = (\<lambda>c p. p),
      now_utc = t0\<rparr>"

text \<open>
  The host of \<open>/srv/app\<close> again, now with the compose files of a new project in
  \<open>/home/u/new\<close> (named \<open>./new\<close> from \<open>/home/u\<close>) and of the deployment
  \<open>/prod/app\<close> it replaces.
\<close>

definition host_deploy :: host where
  "host_deploy =
     host_app\<lparr>isfile := (\<lambda>c p. (c = ''/home/u/new'' \<or> c = ''/prod/app'') \<and> p = ''./docker-compose.yml''),
              abspath := (\<lambda>c p. if p = ''./new'' then ''/home/u/new'' else p)\<rparr>"

text \<open>
  A runner under which every command takes one second: it succeeds and leaves the host
  as it is but for the clock.  \<open>host_at n\<close> is the host of the deployment after \<open>n\<close>
  commands, and \<open>s_dep\<close> the state in which \<open>deploy\<close> is called from \<open>/home/u\<close>.
\<close>

definition run_tick :: runner where
  "run_tick c args h = Inr (h\<lparr>now_utc := (now_utc h)\<lparr>second := second (now_utc h) + 1\<rparr>\<rparr>)"

definition host_at :: "nat \<Rightarrow> host" where
  "host_at n = host_deploy\<lparr>now_utc := t0\<lparr>second := 5 + n\<rparr>\<rparr>"

definition s_dep :: state where
  "s_dep = \<lparr>cwd = ''/home/u'', host = host_at 0, trace = []\<rparr>"

section \<open>Vocabulary of the proofs\<close>

text \<open>
  A step is quiet when it leaves the host and the working directory as they are and
  only prints.
\<close>

definition quiet :: "state \<Rightarrow> state \<Rightarrow> bool" where
  "quiet s s' \<longleftrightarrow>
     host s' = host s \<and> cwd s' = cwd s \<and>
     (\<exists>ev. trace s' = trace s @ ev \<and> (\<forall>e\<in>set ev. \<exists>m. e = Print m))"

text \<open>
  On the host \<open>h\<close>, \<open>path\<close> named from the directory \<open>r\<close> is the project directory
  \<open>d\<close>: \<open>chdir\<close> leads from \<open>r\<close> to \<open>d\<close> and back, and \<open>d\<close> holds a compose file.
  \<open>bracket_ok\<close> adds that the command \<open>args\<close>, run in \<open>d\<close>, succeeds and turns \<open>h\<close>
  into \<open>h'\<close>, from where \<open>chdir\<close> still leads back to \<open>r\<close>: what \<open>build\<close> and
  \<open>down_action\<close> need to end well.
\<close>

definition project_at :: "host \<Rightarrow> string \<Rightarrow> string \<Rightarrow> string \<Rightarrow> bool" where
  "project_at h r path d \<longleftrightarrow>
     chdir_to h r path = Some d \<and> (\<exists>f\<in>set COMPOSE_FILES. isfile h d f) \<and> chdir_to h d r = Some r"

definition bracket_ok :: "runner \<Rightarrow> host \<Rightarrow> string \<Rightarrow> string \<Rightarrow> string \<Rightarrow> string list \<Rightarrow> host \<Rightarrow> bool" where
  "bracket_ok run h r path d args h' \<longleftrightarrow>
     project_at h r path d \<and> run d args h = Inr h' \<and> chdir_to h' d r = Some r"



section \<open>A runner with the commands of the repairer\<close>

text \<open>
  \<open>run_chown\<close> does what \<open>chown -R\<close> does: \<open>sudo chown -R u q\<close> gives \<open>q\<close> and every
  path below it to the user \<open>u\<close>, looked up among the uids 0, 999, 1000 and 1001, and
  fails when there is no such user.  Every other command succeeds and changes nothing.
\<close>

definition lookup_uid :: "host \<Rightarrow> string \<Rightarrow> nat option" where
  "lookup_uid h u = find (\<lambda>n. getpwuid h n = Some u) [0, 999, 1000, 1001]"

definition run_chown :: runner where
  "run_chown c args h =
     (case args of
        [a1, a2, a3, u, q] \<Rightarrow>
          if [a1, a2, a3] = [''sudo'', ''chown'', ''-R''] then
            (case lookup_uid h u of
               None \<Rightarrow> Inl CalledProcessError
             | Some n \<Rightarrow>
                 Inr (h\<lparr>stat_uid := (\<lambda>c' p. if p = q \<or> startswith p (q @ ''/'') then Some n
                                             else stat_uid h c' p)\<rparr>))
          else Inr h
      | _ \<Rightarrow> Inr h)"


section \<open>Evaluating the model\<close>

lemmas prim_defs = ret_def raise_def bind_def seq_def print_line_def sys_exit_def os_getcwd_def
  os_chdir_def os_path_isfile_def os_path_isdir_def os_path_abspath_def os_listdir_def owner_of_def
  safe_load_def datetime_now_def check_call_def

lemma find_compose_eq:
  "find_compose cs = (\<lambda>s. (Inr (find (\<lambda>f. isfile (host s) (cwd s) f) cs), s))"
  by (induction cs) (auto simp add: prim_defs fun_eq_iff)

lemma change_cwd_eq:
  "change_cwd path s =
     (case path of
        None \<Rightarrow> (Inr (cwd s), s)
      | Some p \<Rightarrow>
          (case chdir_to (host s) (cwd s) p of
             None \<Rightarrow> (Inl OSError, s)
           | Some d \<Rightarrow> (Inr (cwd s), s\<lparr>cwd := d\<rparr>)))"
  by (simp add: change_cwd_def prim_defs split: option.splits)

lemma check_call_eq:
  "check_call run args s =
     (case run (cwd s) args (host s) of
        Inl e \<Rightarrow> (Inl e, s\<lparr>trace := trace s @ [Exec (cwd s) args]\<rparr>)
      | Inr h \<Rightarrow> (Inr (), s\<lparr>host := h, trace := trace s @ [Exec (cwd s) args]\<rparr>))"
  by (simp add: check_call_def)

lemma find_none: "(\<forall>f\<in>set cs. \<not> P f) \<Longrightarrow> find P cs = None"
  by (induction cs) auto

lemmas eval_defs = prim_defs change_cwd_eq find_compose_eq COMPOSE_FILES_def Let_def
  strftime_utc_def digits2_def digits4_def digit_def startswith_def

lemma quiet_refl [simp]: "quiet s s"
  by (simp add: quiet_def)

lemma quiet_trans: "quiet s s1 \<Longrightarrow> quiet s1 s2 \<Longrightarrow> quiet s s2"
  by (auto simp: quiet_def)

lemma quiet_print [simp]: "quiet s (s\<lparr>trace := trace s @ [Print m]\<rparr>)"
  by (simp add: quiet_def)

lemma bindE:
  assumes "bind m f s = (r, s')"
  obtains (err) e where "m s = (Inl e, s')" "r = Inl e"
        | (ok) x s1 where "m s = (Inr x, s1)" "f x s1 = (r, s')"
  using assms by (auto simp: bind_def split: prod.splits sum.splits)

lemma bind_Inr_iff:
  "bind m f s = (Inr y, s') \<longleftrightarrow> (\<exists>x s1. m s = (Inr x, s1) \<and> f x s1 = (Inr y, s'))"
  by (auto simp: bind_def split: prod.splits sum.splits)

lemma seq_Inr_iff:
  "seq m k s = (Inr y, s') \<longleftrightarrow> (\<exists>s1. m s = (Inr (), s1) \<and> k s1 = (Inr y, s'))"
  by (simp add: seq_def bind_Inr_iff)

lemma py_split_nonempty [simp]: "py_split c s \<noteq> []"
  by (induction s) (auto split: list.splits)

lemma hd_py_split: "hd (py_split c s) = takeWhile (\<lambda>x. x \<noteq> c) s"
  by (induction s) (auto split: list.splits)

lemma take_takeWhile_eq:
  "c \<notin> set p \<Longrightarrow>
     (take (length p) (takeWhile (\<lambda>x. x \<noteq> c) v) = p) = (take (length p) v = p)"
proof (induction p arbitrary: v)
  case Nil
  then show ?case by simp
next
  case (Cons a p)
  then show ?case by (cases v) auto
qed

lemma startswith_opt_split:
  "startswith (hd (py_split CHR '':'' v)) ''/opt/'' = startswith v ''/opt/''"
  unfolding startswith_def hd_py_split by (rule take_takeWhile_eq) simp

lemma check_call_Inr:
  "check_call run args s = (Inr (), s') \<longleftrightarrow>
     (\<exists>h. run (cwd s) args (host s) = Inr h \<and>
          s' = s\<lparr>host := h, trace := trace s @ [Exec (cwd s) args]\<rparr>)"
  by (auto simp: check_call_eq split: sum.splits)

lemma os_chdir_Inr:
  "os_chdir path s = (Inr (), s') \<longleftrightarrow>
     (\<exists>d. chdir_to (host s) (cwd s) path = Some d \<and> s' = s\<lparr>cwd := d\<rparr>)"
  by (auto simp: os_chdir_def split: option.splits)

lemma print_line_eq: "print_line m s = (Inr (), s\<lparr>trace := trace s @ [Print m]\<rparr>)"
  by (simp add: print_line_def)

lemma owner_of_state: "owner_of p s = (r, s') \<Longrightarrow> s' = s"
  by (auto simp: owner_of_def split: option.splits)

lemma entry_loop_cwd: "entry_loop run from_path to_path es s = (r, s') \<Longrightarrow> cwd s' = cwd s"
proof (induction es arbitrary: s)
  case Nil
  then show ?case by (simp add: ret_def)
next
  case (Cons e es)
  from Cons.prems show ?case
    by (auto simp: bind_def seq_def check_call_eq dest!: owner_of_state Cons.IH
        split: prod.splits sum.splits)
qed

section \<open>The compose-file locator\<close>

lemma check_compose_file_missing:
  assumes "change_cwd project_path s = (Inr old_cwd, s1)"
      and "\<forall>f\<in>set COMPOSE_FILES. \<not> isfile (host s1) (cwd s1) f"
  shows "check_compose_file project_path s =
           (Inl (SysExit 1),
            s1\<lparr>trace := trace s1 @ [Print (''ERROR: Could not find any of '' @ repr_list COMPOSE_FILES)]\<rparr>)"
  using assms by (simp add: check_compose_file_def find_compose_eq find_none prim_defs)

text \<open>
  C7.  In every working directory the locator answers the first of the four names, in
  the order \<open>docker-compose.yml\<close>, \<open>docker-compose.yaml\<close>, \<open>compose.yml\<close>,
  \<open>compose.yaml\<close> (the source writes them with a leading \<open>./\<close>), that is a regular
  file.  When none of the four is one, the extractor prints one line and exits with
  status 1; so does \<open>check_compose_file\<close>, after it has changed into the project
  directory, and with it every action that starts by checking the compose file: no
  command is run.
\<close>

theorem compose_file_locator:
  "find_compose COMPOSE_FILES s =
     (Inr (if isfile (host s) (cwd s) ''./docker-compose.yml'' then Some ''./docker-compose.yml''
           else if isfile (host s) (cwd s) ''./docker-compose.yaml'' then Some ''./docker-compose.yaml''
           else if isfile (host s) (cwd s) ''./compose.yml'' then Some ''./compose.yml''
           else if isfile (host s) (cwd s) ''./compose.yaml'' then Some ''./compose.yaml''
           else None), s)
   \<and> ((\<forall>f\<in>set COMPOSE_FILES. \<not> isfile (host s) (cwd s) f) \<longrightarrow>
        volumes_from_compose_file s =
          (Inl (SysExit 1),
           s\<lparr>trace := trace s @
              [Print (''Could not find any of '' @ repr_list COMPOSE_FILES @ '' in '' @ cwd s)]\<rparr>))
   \<and> (change_cwd project_path s = (Inr old_cwd, s1) \<and>
        (\<forall>f\<in>set COMPOSE_FILES. \<not> isfile (host s1) (cwd s1) f) \<longrightarrow>
        (\<forall>act \<in> {check_compose_file, down_action run, up_action run, build run, backup_action run}.
          act project_path s =
            (Inl (SysExit 1),
             s1\<lparr>trace := trace s1 @
                [Print (''ERROR: Could not find any of '' @ repr_list COMPOSE_FILES)]\<rparr>)))"
proof (intro conjI impI)
  show "find_compose COMPOSE_FILES s =
     (Inr (if isfile (host s) (cwd s) ''./docker-compose.yml'' then Some ''./docker-compose.yml''
           else if isfile (host s) (cwd s) ''./docker-compose.yaml'' then Some ''./docker-compose.yaml''
           else if isfile (host s) (cwd s) ''./compose.yml'' then Some ''./compose.yml''
           else if isfile (host s) (cwd s) ''./compose.yaml'' then Some ''./compose.yaml''
           else None), s)"
    by (simp add: find_compose_eq COMPOSE_FILES_def)
next
  assume "\<forall>f\<in>set COMPOSE_FILES. \<not> isfile (host s) (cwd s) f"
  then show "volumes_from_compose_file s =
          (Inl (SysExit 1),
           s\<lparr>trace := trace s @
              [Print (''Could not find any of '' @ repr_list COMPOSE_FILES @ '' in '' @ cwd s)]\<rparr>)"
    by (simp add: volumes_from_compose_file_def find_compose_eq find_none prim_defs)
next
  assume a: "change_cwd project_path s = (Inr old_cwd, s1) \<and>
        (\<forall>f\<in>set COMPOSE_FILES. \<not> isfile (host s1) (cwd s1) f)"
  then have c: "check_compose_file project_path s =
           (Inl (SysExit 1),
            s1\<lparr>trace := trace s1 @ [Print (''ERROR: Could not find any of '' @ repr_list COMPOSE_FILES)]\<rparr>)"
    by (simp add: check_compose_file_missing)
  show "\<forall>act \<in> {check_compose_file, down_action run, up_action run, build run, backup_action run}.
          act project_path s =
            (Inl (SysExit 1),
             s1\<lparr>trace := trace s1 @
                [Print (''ERROR: Could not find any of '' @ repr_list COMPOSE_FILES)]\<rparr>)"
    using c by (simp add: down_action_def up_action_def build_def backup_action_def seq_def bind_def)
qed

theorem compose_file_locator_witness:
  "volumes_from_compose_file \<lparr>cwd = ''/srv/app'', host = host_bare, trace = []\<rparr> =
     (Inl (SysExit 1),
      \<lparr>cwd = ''/srv/app'', host = host_bare,
       trace = [Print (''Could not find any of '' @ repr_list COMPOSE_FILES @ '' in /srv/app'')]\<rparr>)
   \<and> up_action run_ok (Some ''/srv/app'') \<lparr>cwd = ''/home/u'', host = host_bare, trace = []\<rparr> =
     (Inl (SysExit 1),
      \<lparr>cwd = ''/srv/app'', host = host_bare,
       trace = [Print (''ERROR: Could not find any of '' @ repr_list COMPOSE_FILES)]\<rparr>)"
proof -
  have none: "\<forall>f\<in>set COMPOSE_FILES. \<not> isfile host_bare ''/srv/app'' f"
    by (simp add: host_bare_def)
  have cd: "change_cwd (Some ''/srv/app'') \<lparr>cwd = ''/home/u'', host = host_bare, trace = []\<rparr> =
      (Inr ''/home/u'', \<lparr>cwd = ''/srv/app'', host = host_bare, trace = []\<rparr>)"
    by (simp add: change_cwd_eq host_bare_def)
  show ?thesis
    using none cd
      compose_file_locator [of "\<lparr>cwd = ''/srv/app'', host = host_bare, trace = []\<rparr>"]
      compose_file_locator [of "\<lparr>cwd = ''/home/u'', host = host_bare, trace = []\<rparr>"
        "Some ''/srv/app''" "''/home/u''" "\<lparr>cwd = ''/srv/app'', host = host_bare, trace = []\<rparr>" run_ok]
    by simp
qed

section \<open>The backup\<close>

text \<open>
  C1.  The claim wants the snapshot root set to mode 0700 after the copy.  The command
  the source runs there is \<open>sudo chown 700\<close>, a change of owner to the user 700, and no
  command of \<open>backup\<close> changes a mode: the run of \<open>backup\<close> on the project \<open>/srv/app\<close>,
  whose data directory exists, in full.
\<close>

theorem backup_runs_chown_700:
  "backup run_ok (Some ''/srv/app'') \<lparr>cwd = ''/home/u'', host = host_app, trace = []\<rparr> =
     (Inr (),
      \<lparr>cwd = ''/home/u'', host = host_app,
       trace =
         [Exec ''/srv/app'' [''sudo'', ''mkdir'', ''-p'', ''/opt/app/backup''],
          Exec ''/srv/app'' [''sudo'', ''cp'', ''-r'', ''/opt/app/data'',
            ''/opt/app/backup/data_20240102_030405_utc''],
          Exec ''/srv/app'' [''sudo'', ''chown'', ''700'', ''/opt/app/backup/data_20240102_030405_utc''],
          Exec ''/srv/app'' [''sudo'', ''chown'', ''-R'', ''postgres'',
            ''/opt/app/backup/data_20240102_030405_utc/db''],
          Exec ''/srv/app'' [''sudo'', ''chown'', ''-R'', ''alice'',
            ''/opt/app/backup/data_20240102_030405_utc/logs''],
          Print (nl @ ''Backed up data to /opt/app/backup/data_20240102_030405_utc'' @ nl)]\<rparr>)"
  by (simp add: backup_def host_app_def run_ok_def t0_def eval_defs)

text \<open>
  C5.  The claim wants the \<open>up\<close> action performed after a skipped backup, for every
  project.  For a project named by the relative path \<open>./my_project\<close> it is not: the
  skipped \<open>backup\<close> returns inside the project directory, \<open>up_action\<close> changes into
  \<open>./my_project\<close> again from there, and \<open>os.chdir\<close> raises before any command of
  \<open>up\<close> is run.
\<close>

theorem backup_action_relative_path_skips_up:
  "backup_action run_ok (Some ''./my_project'') \<lparr>cwd = ''/home/u'', host = host_rel, trace = []\<rparr> =
     (Inl OSError,
      \<lparr>cwd = ''/home/u/my_project'', host = host_rel,
       trace =
         [Exec ''/home/u/my_project'' [''docker-compose'', ''down''],
          Print ''Skipping backup: Nothing to backup at /opt/my_project/data'']\<rparr>)"
  by (simp add: backup_action_def down_action_def up_action_def check_compose_file_def
      backup_def host_rel_def run_ok_def t0_def eval_defs)

text \<open>
  C10.  \<open>backup\<close> of a project path \<open>p\<close> that leads to the directory \<open>d\<close>.  When
  \<open>/opt/<name>/data\<close> is no directory, \<open>backup\<close> prints the skip message and
  returns with the working directory \<open>d\<close>, the project directory: the directory of the
  caller is not restored.  When the data directory exists and \<open>backup\<close> ends well, its
  last step is the change from \<open>d\<close> back into the directory of the caller.
\<close>

theorem backup_skip_keeps_project_cwd:
  assumes "chdir_to (host s) (cwd s) p = Some d"
  shows "(\<not> isdir (host s) d (''/opt/'' @ last (py_split CHR ''/'' d) @ ''/data'') \<longrightarrow>
          backup run (Some p) s =
            (Inr (),
             s\<lparr>cwd := d,
               trace := trace s @
                 [Print (''Skipping backup: Nothing to backup at /opt/'' @
                         last (py_split CHR ''/'' d) @ ''/data'')]\<rparr>)) \<and>
         (isdir (host s) d (''/opt/'' @ last (py_split CHR ''/'' d) @ ''/data'') \<longrightarrow>
          backup run (Some p) s = (Inr (), s') \<longrightarrow>
          chdir_to (host s') d (cwd s) = Some (cwd s'))"
proof (intro conjI impI)
  assume "\<not> isdir (host s) d (''/opt/'' @ last (py_split CHR ''/'' d) @ ''/data'')"
  with assms show "backup run (Some p) s =
            (Inr (),
             s\<lparr>cwd := d,
               trace := trace s @
                 [Print (''Skipping backup: Nothing to backup at /opt/'' @
                         last (py_split CHR ''/'' d) @ ''/data'')]\<rparr>)"
    by (simp add: backup_def eval_defs)
next
  assume dir: "isdir (host s) d (''/opt/'' @ last (py_split CHR ''/'' d) @ ''/data'')"
    and ok: "backup run (Some p) s = (Inr (), s')"
  let ?app = "last (py_split CHR ''/'' d)"
  let ?s0 = "s\<lparr>cwd := d\<rparr>"
  from ok assms dir have
    "seq (check_call run [''sudo'', ''mkdir'', ''-p'', ''/opt/'' @ ?app @ ''/backup''])
       (bind datetime_now (\<lambda>now.
          seq (check_call run [''sudo'', ''cp'', ''-r'', ''/opt/'' @ ?app @ ''/data'',
                 ''/opt/'' @ ?app @ ''/backup/data_'' @ strftime_utc now])
            (seq (check_call run [''sudo'', ''chown'', ''700'',
                    ''/opt/'' @ ?app @ ''/backup/data_'' @ strftime_utc now])
               (bind (os_listdir (''/opt/'' @ ?app @ ''/data'')) (\<lambda>entries.
                  seq (entry_loop run (''/opt/'' @ ?app @ ''/data'')
                         (''/opt/'' @ ?app @ ''/backup/data_'' @ strftime_utc now) entries)
                    (seq (print_line (nl @ ''Backed up data to '' @
                            ''/opt/'' @ ?app @ ''/backup/data_'' @ strftime_utc now @ nl))
                       (os_chdir (cwd s)))))))) ?s0 = (Inr (), s')"
    by (simp add: backup_def change_cwd_eq bind_def os_getcwd_def os_path_isdir_def seq_def Let_def)
  then obtain s1 s2 s3 s4 s5 now entries where
    1: "check_call run [''sudo'', ''mkdir'', ''-p'', ''/opt/'' @ ?app @ ''/backup''] ?s0 = (Inr (), s1)"
    and 2: "check_call run [''sudo'', ''cp'', ''-r'', ''/opt/'' @ ?app @ ''/data'',
                 ''/opt/'' @ ?app @ ''/backup/data_'' @ strftime_utc now] s1 = (Inr (), s2)"
    and 3: "check_call run [''sudo'', ''chown'', ''700'',
                    ''/opt/'' @ ?app @ ''/backup/data_'' @ strftime_utc now] s2 = (Inr (), s3)"
    and 4: "entry_loop run (''/opt/'' @ ?app @ ''/data'')
                         (''/opt/'' @ ?app @ ''/backup/data_'' @ strftime_utc now) entries s3 = (Inr (), s4)"
    and 5: "s5 = s4\<lparr>trace := trace s4 @ [Print (nl @ ''Backed up data to '' @
                            ''/opt/'' @ ?app @ ''/backup/data_'' @ strftime_utc now @ nl)]\<rparr>"
    and 6: "os_chdir (cwd s) s5 = (Inr (), s')"
    by (auto simp: seq_Inr_iff bind_Inr_iff datetime_now_def os_listdir_def print_line_def
        split: option.splits)
  from 1 2 3 have "cwd s3 = d" by (auto simp: check_call_Inr)
  with 4 5 have "cwd s5 = d" using entry_loop_cwd by fastforce
  with 6 show "chdir_to (host s') d (cwd s) = Some (cwd s')"
    by (auto simp: os_chdir_Inr)
qed

lemma backup_app_from_root:
  "backup run_ok (Some ''/srv/app'') \<lparr>cwd = ''/'', host = host_app, trace = []\<rparr> =
     (Inr (),
      \<lparr>cwd = ''/'', host = host_app,
       trace =
         [Exec ''/srv/app'' [''sudo'', ''mkdir'', ''-p'', ''/opt/app/backup''],
          Exec ''/srv/app'' [''sudo'', ''cp'', ''-r'', ''/opt/app/data'',
            ''/opt/app/backup/data_20240102_030405_utc''],
          Exec ''/srv/app'' [''sudo'', ''chown'', ''700'', ''/opt/app/backup/data_20240102_030405_utc''],
          Exec ''/srv/app'' [''sudo'', ''chown'', ''-R'', ''postgres'',
            ''/opt/app/backup/data_20240102_030405_utc/db''],
          Exec ''/srv/app'' [''sudo'', ''chown'', ''-R'', ''alice'',
            ''/opt/app/backup/data_20240102_030405_utc/logs''],
          Print (nl @ ''Backed up data to /opt/app/backup/data_20240102_030405_utc'' @ nl)]\<rparr>)"
  by (simp add: backup_def host_app_def run_ok_def t0_def eval_defs)

theorem backup_skip_keeps_project_cwd_witness:
  "backup run_ok (Some ''./my_project'') \<lparr>cwd = ''/home/u'', host = host_rel, trace = []\<rparr> =
     (Inr (),
      \<lparr>cwd = ''/home/u/my_project'', host = host_rel,
       trace = [Print ''Skipping backup: Nothing to backup at /opt/my_project/data'']\<rparr>) \<and>
   cwd (snd (backup run_ok (Some ''/srv/app'') \<lparr>cwd = ''/'', host = host_app, trace = []\<rparr>)) = ''/''"
proof -
  have 1: "chdir_to (host \<lparr>cwd = ''/home/u'', host = host_rel, trace = []\<rparr>)
             (cwd \<lparr>cwd = ''/home/u'', host = host_rel, trace = []\<rparr>) ''./my_project'' =
           Some ''/home/u/my_project''"
    by (simp add: host_rel_def)
  have 2: "\<not> isdir (host \<lparr>cwd = ''/home/u'', host = host_rel, trace = []\<rparr>) ''/home/u/my_project''
             (''/opt/'' @ last (py_split CHR ''/'' ''/home/u/my_project'') @ ''/data'')"
    by (simp add: host_rel_def)
  have 3: "chdir_to (host \<lparr>cwd = ''/'', host = host_app, trace = []\<rparr>)
             (cwd \<lparr>cwd = ''/'', host = host_app, trace = []\<rparr>) ''/srv/app'' = Some ''/srv/app''"
    by (simp add: host_app_def)
  have 4: "isdir (host \<lparr>cwd = ''/'', host = host_app, trace = []\<rparr>) ''/srv/app''
             (''/opt/'' @ last (py_split CHR ''/'' ''/srv/app'') @ ''/data'')"
    by (simp add: host_app_def)
  from backup_skip_keeps_project_cwd [OF 1, of run_ok] 2
  have a: "backup run_ok (Some ''./my_project'') \<lparr>cwd = ''/home/u'', host = host_rel, trace = []\<rparr> =
     (Inr (),
      \<lparr>cwd = ''/home/u/my_project'', host = host_rel,
       trace = [Print ''Skipping backup: Nothing to backup at /opt/my_project/data'']\<rparr>)"
    by simp
  let ?end = "\<lparr>cwd = ''/'', host = host_app,
       trace =
         [Exec ''/srv/app'' [''sudo'', ''mkdir'', ''-p'', ''/opt/app/backup''],
          Exec ''/srv/app'' [''sudo'', ''cp'', ''-r'', ''/opt/app/data'',
            ''/opt/app/backup/data_20240102_030405_utc''],
          Exec ''/srv/app'' [''sudo'', ''chown'', ''700'', ''/opt/app/backup/data_20240102_030405_utc''],
          Exec ''/srv/app'' [''sudo'', ''chown'', ''-R'', ''postgres'',
            ''/opt/app/backup/data_20240102_030405_utc/db''],
          Exec ''/srv/app'' [''sudo'', ''chown'', ''-R'', ''alice'',
            ''/opt/app/backup/data_20240102_030405_utc/logs''],
          Print (nl @ ''Backed up data to /opt/app/backup/data_20240102_030405_utc'' @ nl)]\<rparr>"
  from backup_skip_keeps_project_cwd [OF 3, where run = run_ok and s' = ?end] 4 backup_app_from_root
  have "chdir_to (host ?end) ''/srv/app'' ''/'' = Some (cwd ?end)"
    by simp
  with backup_app_from_root
  have "chdir_to host_app ''/srv/app'' ''/'' =
        Some (cwd (snd (backup run_ok (Some ''/srv/app'') \<lparr>cwd = ''/'', host = host_app, trace = []\<rparr>)))"
    by simp
  then have b: "cwd (snd (backup run_ok (Some ''/srv/app'') \<lparr>cwd = ''/'', host = host_app, trace = []\<rparr>)) = ''/''"
    by (simp add: host_app_def)
  from a b show ?thesis by simp
qed

section \<open>The volume extractor\<close>

lemma volume_step_eq:
  "volume_step v acc s =
     (let p = hd (py_split CHR '':'' v) in
      if \<not> isdir (host s) (cwd s) p then (Inr (acc @ [(p, ''root'')]), s)
      else if \<not> startswith v ''/opt/'' then
        (Inr acc, s\<lparr>trace := trace s @
           [Print (nl @ ''WARNING: Skipping volume, must start with /opt/ : '' @ p @ nl)]\<rparr>)
      else (case stat_uid (host s) (cwd s) p of
              None \<Rightarrow> (Inl OSError, s)
            | Some uid \<Rightarrow>
                (case getpwuid (host s) uid of
                   None \<Rightarrow> (Inl KeyError, s)
                 | Some u \<Rightarrow> (Inr (acc @ [(p, u)]), s))))"
  by (simp add: volume_step_def prim_defs Let_def split: option.splits)

lemma volume_step_quiet: "volume_step v acc s = (r, s') \<Longrightarrow> quiet s s'"
  by (auto simp: volume_step_eq Let_def split: if_splits option.splits)

lemma volume_loop_quiet: "volume_loop vs acc s = (r, s') \<Longrightarrow> quiet s s'"
proof (induction vs arbitrary: acc s)
  case Nil
  then show ?case by (simp add: ret_def)
next
  case (Cons v vs)
  from Cons.prems
  have "bind (volume_step v acc) (\<lambda>vols'. volume_loop vs vols') s = (r, s')"
    by simp
  then show ?case
  proof (cases rule: bindE)
    case (err e)
    then show ?thesis by (simp add: volume_step_quiet)
  next
    case (ok x s1)
    then show ?thesis using Cons.IH volume_step_quiet quiet_trans by blast
  qed
qed

lemma service_loop_quiet: "service_loop svcs names acc s = (r, s') \<Longrightarrow> quiet s s'"
proof (induction names arbitrary: acc s)
  case Nil
  then show ?case by (simp add: ret_def)
next
  case (Cons name names)
  show ?case
  proof (cases "map_of svcs name")
    case None
    with Cons.prems show ?thesis by (simp add: raise_def)
  next
    case (Some svc)
    show ?thesis
    proof (cases "volumes svc")
      case None
      with Some Cons.prems Cons.IH show ?thesis by simp
    next
      case (Some vs)
      with \<open>map_of svcs name = Some svc\<close> Cons.prems
      have "bind (volume_loop vs acc) (\<lambda>vols'. service_loop svcs names vols') s = (r, s')"
        by simp
      then show ?thesis
      proof (cases rule: bindE)
        case (err e)
        then show ?thesis by (simp add: volume_loop_quiet)
      next
        case (ok x s1)
        then show ?thesis using Cons.IH volume_loop_quiet quiet_trans by blast
      qed
    qed
  qed
qed

lemma volumes_from_compose_file_quiet:
  "volumes_from_compose_file s = (r, s') \<Longrightarrow> quiet s s'"
  by (auto simp: volumes_from_compose_file_def find_compose_eq prim_defs
      split: option.splits sum.splits dest: service_loop_quiet)

lemma volume_step_mono: "volume_step v acc s = (Inr acc', s') \<Longrightarrow> set acc \<subseteq> set acc'"
  by (auto simp: volume_step_eq Let_def split: if_splits option.splits)

lemma volume_loop_mono: "volume_loop vs acc s = (Inr acc', s') \<Longrightarrow> set acc \<subseteq> set acc'"
proof (induction vs arbitrary: acc s)
  case Nil
  then show ?case by (simp add: ret_def)
next
  case (Cons v vs)
  from Cons.prems obtain acc1 s1 where
    "volume_step v acc s = (Inr acc1, s1)" "volume_loop vs acc1 s1 = (Inr acc', s')"
    by (auto simp: bind_Inr_iff)
  then show ?case using Cons.IH volume_step_mono by blast
qed

lemma service_loop_mono:
  "service_loop svcs names acc s = (Inr acc', s') \<Longrightarrow> set acc \<subseteq> set acc'"
proof (induction names arbitrary: acc s)
  case Nil
  then show ?case by (simp add: ret_def)
next
  case (Cons name names)
  from Cons.prems obtain svc where svc: "map_of svcs name = Some svc"
    by (cases "map_of svcs name") (auto simp: raise_def)
  show ?case
  proof (cases "volumes svc")
    case None
    with svc Cons.prems Cons.IH show ?thesis by simp
  next
    case (Some vs)
    with svc Cons.prems obtain acc1 s1 where
      "volume_loop vs acc s = (Inr acc1, s1)" "service_loop svcs names acc1 s1 = (Inr acc', s')"
      by (auto simp: bind_Inr_iff)
    then show ?thesis using Cons.IH volume_loop_mono by blast
  qed
qed

text \<open>What one round of the loop adds is still there when the loops end.\<close>

lemma volume_loop_adds:
  assumes step: "\<forall>acc s acc' s'. host s = h \<longrightarrow> cwd s = c \<longrightarrow>
                   volume_step v acc s = (Inr acc', s') \<longrightarrow> pu \<in> set acc'"
      and "v \<in> set vs" "host s = h" "cwd s = c"
      and "volume_loop vs acc s = (Inr acc', s')"
  shows "pu \<in> set acc'"
  using assms(2-)
proof (induction vs arbitrary: acc s)
  case Nil
  then show ?case by simp
next
  case (Cons w vs)
  from Cons.prems obtain acc1 s1 where
    s1: "volume_step w acc s = (Inr acc1, s1)" and rest: "volume_loop vs acc1 s1 = (Inr acc', s')"
    by (auto simp: bind_Inr_iff)
  from s1 have q: "host s1 = h" "cwd s1 = c"
    using volume_step_quiet Cons.prems by (auto simp: quiet_def)
  show ?case
  proof (cases "v = w")
    case True
    with s1 Cons.prems have "pu \<in> set acc1" using step by blast
    with rest show ?thesis using volume_loop_mono by blast
  next
    case False
    with Cons.prems have "v \<in> set vs" by simp
    with q rest show ?thesis using Cons.IH by blast
  qed
qed

lemma service_loop_adds:
  assumes step: "\<forall>acc s acc' s'. host s = h \<longrightarrow> cwd s = c \<longrightarrow>
                   volume_step v acc s = (Inr acc', s') \<longrightarrow> pu \<in> set acc'"
      and "map_of svcs name = Some svc" "volumes svc = Some vs" "v \<in> set vs"
      and "name \<in> set names" "host s = h" "cwd s = c"
      and "service_loop svcs names acc s = (Inr acc', s')"
  shows "pu \<in> set acc'"
  using assms(5-)
proof (induction names arbitrary: acc s)
  case Nil
  then show ?case by simp
next
  case (Cons n names)
  from Cons.prems obtain svc' where svc': "map_of svcs n = Some svc'"
    by (cases "map_of svcs n") (auto simp: raise_def)
  show ?case
  proof (cases "volumes svc'")
    case None
    with svc' assms(2,3) have "n \<noteq> name" by auto
    with None svc' Cons.prems Cons.IH show ?thesis by simp
  next
    case (Some ws)
    with svc' Cons.prems obtain acc1 s1 where
      s1: "volume_loop ws acc s = (Inr acc1, s1)"
      and rest: "service_loop svcs names acc1 s1 = (Inr acc', s')"
      by (auto simp: bind_Inr_iff)
    from s1 have q: "host s1 = h" "cwd s1 = c"
      using volume_loop_quiet Cons.prems by (auto simp: quiet_def)
    show ?thesis
    proof (cases "n = name")
      case True
      with svc' Some assms(2,3) have "ws = vs" by simp
      with s1 Cons.prems assms(4) have "pu \<in> set acc1"
        using volume_loop_adds [OF step, of vs s acc acc1 s1] by simp
      with rest show ?thesis using service_loop_mono by blast
    next
      case False
      with Cons.prems have "name \<in> set names" by simp
      with q rest show ?thesis using Cons.IH by blast
    qed
  qed
qed

lemma extractor_adds:
  assumes step: "\<forall>acc s1 acc' s'. host s1 = host s \<longrightarrow> cwd s1 = cwd s \<longrightarrow>
                   volume_step v acc s1 = (Inr acc', s') \<longrightarrow> pu \<in> set acc'"
      and "find_compose COMPOSE_FILES s = (Inr (Some f), s)"
      and "load_yaml (host s) (cwd s) f = Inr doc"
      and "services doc = Some svcs" "map_of svcs name = Some svc"
      and "volumes svc = Some vs" "v \<in> set vs"
      and "volumes_from_compose_file s = (Inr vols, s')"
  shows "pu \<in> set vols"
proof -
  from assms(2-4,8) have run: "service_loop svcs (map fst svcs) [] s = (Inr vols, s')"
    by (simp add: volumes_from_compose_file_def bind_def safe_load_def)
  from assms(5) have "name \<in> set (map fst svcs)"
    by (metis map_of_eq_None_iff option.distinct(1) set_map)
  with run show ?thesis
    using service_loop_adds [OF step assms(5-7), of "map fst svcs" s "[]" vols s'] by simp
qed

text \<open>Every pair of the result was added by one round of the loop.\<close>

lemma volume_step_sound:
  assumes "volume_step v acc s = (Inr acc', s')" "(p, u) \<in> set acc'" "(p, u) \<notin> set acc"
  shows "(isdir (host s) (cwd s) p \<longrightarrow> startswith p ''/opt/'') \<and>
         (\<not> isdir (host s) (cwd s) p \<longrightarrow> u = ''root'')"
  using assms
  by (auto simp: volume_step_eq Let_def startswith_opt_split split: if_splits option.splits)

lemma volume_loop_sound:
  assumes "volume_loop vs acc s = (Inr acc', s')" "(p, u) \<in> set acc'" "(p, u) \<notin> set acc"
  shows "(isdir (host s) (cwd s) p \<longrightarrow> startswith p ''/opt/'') \<and>
         (\<not> isdir (host s) (cwd s) p \<longrightarrow> u = ''root'')"
  using assms
proof (induction vs arbitrary: acc s)
  case Nil
  then show ?case by (simp add: ret_def)
next
  case (Cons w vs)
  from Cons.prems obtain acc1 s1 where
    s1: "volume_step w acc s = (Inr acc1, s1)" and rest: "volume_loop vs acc1 s1 = (Inr acc', s')"
    by (auto simp: bind_Inr_iff)
  from s1 have q: "host s1 = host s" "cwd s1 = cwd s"
    using volume_step_quiet by (auto simp: quiet_def)
  show ?case
  proof (cases "(p, u) \<in> set acc1")
    case True
    with s1 Cons.prems show ?thesis using volume_step_sound by blast
  next
    case False
    with rest Cons.prems q show ?thesis using Cons.IH [of acc1 s1] by simp
  qed
qed

lemma service_loop_sound:
  assumes "service_loop svcs names acc s = (Inr acc', s')" "(p, u) \<in> set acc'" "(p, u) \<notin> set acc"
  shows "(isdir (host s) (cwd s) p \<longrightarrow> startswith p ''/opt/'') \<and>
         (\<not> isdir (host s) (cwd s) p \<longrightarrow> u = ''root'')"
  using assms
proof (induction names arbitrary: acc s)
  case Nil
  then show ?case by (simp add: ret_def)
next
  case (Cons n names)
  from Cons.prems obtain svc where svc: "map_of svcs n = Some svc"
    by (cases "map_of svcs n") (auto simp: raise_def)
  show ?case
  proof (cases "volumes svc")
    case None
    with svc Cons.prems Cons.IH show ?thesis by simp
  next
    case (Some ws)
    with svc Cons.prems obtain acc1 s1 where
      s1: "volume_loop ws acc s = (Inr acc1, s1)"
      and rest: "service_loop svcs names acc1 s1 = (Inr acc', s')"
      by (auto simp: bind_Inr_iff)
    from s1 have q: "host s1 = host s" "cwd s1 = cwd s"
      using volume_loop_quiet by (auto simp: quiet_def)
    show ?thesis
    proof (cases "(p, u) \<in> set acc1")
      case True
      with s1 Cons.prems show ?thesis using volume_loop_sound by blast
    next
      case False
      with rest Cons.prems q show ?thesis using Cons.IH [of acc1 s1] by simp
    qed
  qed
qed

lemma extractor_sound:
  assumes "volumes_from_compose_file s = (Inr vols, s')" "(p, u) \<in> set vols"
  shows "(isdir (host s) (cwd s) p \<longrightarrow> startswith p ''/opt/'') \<and>
         (\<not> isdir (host s) (cwd s) p \<longrightarrow> u = ''root'')"
proof -
  from assms(1) obtain svcs where "service_loop svcs (map fst svcs) [] s = (Inr vols, s')"
    by (auto simp: volumes_from_compose_file_def find_compose_eq prim_defs
        split: option.splits sum.splits)
  with assms(2) show ?thesis using service_loop_sound [of svcs _ "[]"] by simp
qed

lemma extract_s_app:
  "volumes_from_compose_file s_app =
     (Inr [(''/srv/x'', ''root''), (''/opt/app/data'', ''alice'')],
      s_app\<lparr>trace := [Print (nl @ ''WARNING: Skipping volume, must start with /opt/ : /srv/y'' @ nl)]\<rparr>)"
  by (simp add: volumes_from_compose_file_def volume_step_def s_app_def host_app_def eval_defs)

text \<open>
  C8.  A volume declared as \<open>/opt/x:...\<close> (the host path \<open>/opt/x\<close> holds no colon)
  in the compose file the locator finds, whose host path is a directory owned by the
  user \<open>u\<close> (\<open>stat\<close> gives the uid, the user database its name): when the extractor
  returns a list, the pair \<open>(/opt/x, u)\<close> is in it.  The extractor returns no list when
  a query about another volume raises.
\<close>

theorem extractor_yields_owner:
  assumes "find_compose COMPOSE_FILES s = (Inr (Some f), s)"
      and "load_yaml (host s) (cwd s) f = Inr doc"
      and "services doc = Some svcs" and "map_of svcs name = Some svc"
      and "volumes svc = Some vs" and "''/opt/'' @ x @ '':'' @ rest \<in> set vs"
      and "CHR '':'' \<notin> set x"
      and "isdir (host s) (cwd s) (''/opt/'' @ x)"
      and "stat_uid (host s) (cwd s) (''/opt/'' @ x) = Some uid"
      and "getpwuid (host s) uid = Some u"
      and "volumes_from_compose_file s = (Inr vols, s')"
  shows "(''/opt/'' @ x, u) \<in> set vols"
proof -
  have "takeWhile (\<lambda>c. c \<noteq> CHR '':'') (x @ CHR '':'' # rest) = x"
    using assms(7) by (auto simp add: takeWhile_tail takeWhile_eq_all_conv)
  then have p: "hd (py_split CHR '':'' (''/opt/'' @ x @ '':'' @ rest)) = ''/opt/'' @ x"
    unfolding hd_py_split by simp
  have step: "\<forall>acc s1 acc' s'. host s1 = host s \<longrightarrow> cwd s1 = cwd s \<longrightarrow>
      volume_step (''/opt/'' @ x @ '':'' @ rest) acc s1 = (Inr acc', s') \<longrightarrow>
      (''/opt/'' @ x, u) \<in> set acc'"
    using assms(8-10) unfolding volume_step_eq p by (auto simp: startswith_def)
  show ?thesis
    by (rule extractor_adds [OF step assms(1-6) assms(11)])
qed

theorem extractor_yields_owner_witness:
  "\<exists>vols s'. volumes_from_compose_file s_app = (Inr vols, s') \<and> (''/opt/app/data'', ''alice'') \<in> set vols"
proof -
  have 1: "find_compose COMPOSE_FILES s_app = (Inr (Some ''./docker-compose.yml''), s_app)"
    by (simp add: s_app_def host_app_def eval_defs)
  have 2: "load_yaml (host s_app) (cwd s_app) ''./docker-compose.yml'' = Inr \<lparr>services = Some
         [(''web'', \<lparr>volumes = Some [''/srv/x:/x'', ''/srv/y:/y'']\<rparr>),
          (''cache'', \<lparr>volumes = None\<rparr>),
          (''db'', \<lparr>volumes = Some [''/opt/app/data:/data'']\<rparr>)]\<rparr>"
    by (simp add: s_app_def host_app_def)
  have 3: "''/opt/'' @ ''app/data'' @ '':'' @ ''/data'' \<in> set [''/opt/app/data:/data'']" by simp
  have 4: "CHR '':'' \<notin> set ''app/data''" by simp
  have 5: "isdir (host s_app) (cwd s_app) (''/opt/'' @ ''app/data'')"
    by (simp add: s_app_def host_app_def)
  have 6: "stat_uid (host s_app) (cwd s_app) (''/opt/'' @ ''app/data'') = Some 1000"
    by (simp add: s_app_def host_app_def)
  have 7: "getpwuid (host s_app) 1000 = Some ''alice''"
    by (simp add: s_app_def host_app_def)
  have 8: "map_of [(''web'', \<lparr>volumes = Some [''/srv/x:/x'', ''/srv/y:/y'']\<rparr>),
          (''cache'', \<lparr>volumes = None\<rparr>),
          (''db'', \<lparr>volumes = Some [''/opt/app/data:/data'']\<rparr>)] ''db'' =
        Some \<lparr>volumes = Some [''/opt/app/data:/data'']\<rparr>"
    by simp
  have "(''/opt/'' @ ''app/data'', ''alice'') \<in> set [(''/srv/x'', ''root''), (''/opt/app/data'', ''alice'')]"
    by (rule extractor_yields_owner [OF 1 2 _ 8 _ 3 4 5 6 7 extract_s_app]) simp_all
  with extract_s_app show ?thesis by auto
qed

text \<open>
  C2, as stated: a host path outside \<open>/opt/\<close> is left out whether it exists or not.
  It fails for \<open>/srv/x\<close>, which does not exist: the extractor tests the directory
  first and records the path with the owner \<open>root\<close>, whatever its prefix.
\<close>

theorem extractor_records_missing_outside_opt:
  "\<not> startswith ''/srv/x'' ''/opt/'' \<and> \<not> isdir (host s_app) (cwd s_app) ''/srv/x'' \<and>
   (''/srv/x'', ''root'') \<in> set (case fst (volumes_from_compose_file s_app) of Inl e \<Rightarrow> [] | Inr vols \<Rightarrow> vols)"
  by (simp add: extract_s_app) (simp add: startswith_def s_app_def host_app_def)

text \<open>
  C2, amended.  A host path that does not start with \<open>/opt/\<close> and is an existing
  directory is in no pair of the list the extractor returns.
\<close>

theorem extractor_omits_existing_outside_opt:
  assumes "volumes_from_compose_file s = (Inr vols, s')"
      and "\<not> startswith p ''/opt/''" and "isdir (host s) (cwd s) p"
  shows "p \<notin> fst ` set vols"
  using assms extractor_sound by fastforce

theorem extractor_omits_existing_outside_opt_witness:
  "fst (volumes_from_compose_file s_app) = Inr [(''/srv/x'', ''root''), (''/opt/app/data'', ''alice'')] \<and>
   \<not> startswith ''/srv/y'' ''/opt/'' \<and> isdir (host s_app) (cwd s_app) ''/srv/y'' \<and>
   ''/srv/y'' \<notin> fst ` set [(''/srv/x'', ''root''), (''/opt/app/data'', ''alice'')]"
proof -
  have 1: "\<not> startswith ''/srv/y'' ''/opt/''" by (simp add: startswith_def)
  have 2: "isdir (host s_app) (cwd s_app) ''/srv/y''" by (simp add: s_app_def host_app_def)
  from extractor_omits_existing_outside_opt [OF extract_s_app 1 2] 1 2 show ?thesis
    by (simp add: extract_s_app)
qed

section \<open>The ownership repairer\<close>

lemma fix_volume_eq:
  "fix_volume run (p, u) s =
     (if \<not> isdir (host s) (cwd s) p then
        (Inr (), s\<lparr>trace := trace s @
           [Print (nl @ ''WARNING: You should probably create and/or set non root owner of volume folder: '' @ p @ nl),
            Print (''sudo mkdir -p '' @ p @ '' && sudo chown -R OWNER_HERE '' @ p @ nl)]\<rparr>)
      else (case stat_uid (host s) (cwd s) p of
              None \<Rightarrow> (Inl OSError, s)
            | Some uid \<Rightarrow>
                (case getpwuid (host s) uid of
                   None \<Rightarrow> (Inl KeyError, s)
                 | Some owner_username \<Rightarrow>
                     if owner_username = ''root'' then
                       (Inr (), s\<lparr>trace := trace s @
                          [Print (nl @ ''WARNING: You should probably set non root owner of volume folder: '' @ p @ nl),
                           Print (''sudo chown -R OWNER_HERE '' @ p @ nl)]\<rparr>)
                     else check_call run [''sudo'', ''chown'', ''-R'', u, p] s)))"
  by (simp add: fix_volume_def prim_defs split: option.splits)

text \<open>
  The repairer on a path that is no directory and that no change of owner creates: the only
  commands it runs are recursive changes of owner of other paths, and when it comes to
  the path it prints the warning.
\<close>

lemma fix_volumes_loop_missing:
  assumes stays: "\<forall>c u q h h'. run c [''sudo'', ''chown'', ''-R'', u, q] h = Inr h' \<longrightarrow>
                    \<not> isdir h c0 p \<longrightarrow> \<not> isdir h' c0 p"
      and "\<not> isdir (host s) c0 p" and "cwd s = c0"
      and "fix_volumes_loop run vols s = (r, s')"
  shows "\<exists>ev. trace s' = trace s @ ev \<and>
           (\<forall>d args. Exec d args \<in> set ev \<longrightarrow>
              (\<exists>u q. args = [''sudo'', ''chown'', ''-R'', u, q] \<and> q \<noteq> p)) \<and>
           (r = Inr () \<longrightarrow> p \<in> fst ` set vols \<longrightarrow>
              Print (nl @ ''WARNING: You should probably create and/or set non root owner of volume folder: ''
                     @ p @ nl) \<in> set ev)"
  using assms(2-)
proof (induction vols arbitrary: s)
  case Nil
  then show ?case by (simp add: ret_def)
next
  case (Cons v vols)
  obtain q u where v: "v = (q, u)" by (cases v)
  from Cons.prems(3) have run:
    "bind (fix_volume run (q, u)) (\<lambda>_. fix_volumes_loop run vols) s = (r, s')"
    by (simp add: v seq_def)
  let ?W = "Print (nl @ ''WARNING: You should probably create and/or set non root owner of volume folder: ''
                     @ p @ nl)"
  have one: "\<exists>ev1 r1 s1. fix_volume run (q, u) s = (r1, s1) \<and> trace s1 = trace s @ ev1 \<and>
      (\<forall>d args. Exec d args \<in> set ev1 \<longrightarrow> (\<exists>u q. args = [''sudo'', ''chown'', ''-R'', u, q] \<and> q \<noteq> p)) \<and>
      (r1 = Inr () \<longrightarrow> q = p \<longrightarrow> ?W \<in> set ev1) \<and>
      cwd s1 = c0 \<and> \<not> isdir (host s1) c0 p"
  proof (cases "isdir (host s) (cwd s) q")
    case False
    then show ?thesis using Cons.prems(1,2) by (simp add: fix_volume_eq)
  next
    case True
    with Cons.prems(1,2) have "q \<noteq> p" by auto
    with True show ?thesis using Cons.prems(1,2) stays
      by (auto simp: fix_volume_eq check_call_eq split: option.splits sum.splits)
  qed
  then obtain ev1 r1 s1 where
    f: "fix_volume run (q, u) s = (r1, s1)" and t1: "trace s1 = trace s @ ev1"
    and e1: "\<forall>d args. Exec d args \<in> set ev1 \<longrightarrow> (\<exists>u q. args = [''sudo'', ''chown'', ''-R'', u, q] \<and> q \<noteq> p)"
    and w1: "r1 = Inr () \<longrightarrow> q = p \<longrightarrow> ?W \<in> set ev1"
    and c1: "cwd s1 = c0" and d1: "\<not> isdir (host s1) c0 p"
    by blast
  from run show ?case
  proof (cases rule: bindE)
    case (err e)
    with f t1 e1 show ?thesis by auto
  next
    case (ok x s2)
    with f have s2: "s2 = s1" "r1 = Inr ()" by auto
    from ok(2) s2 have "fix_volumes_loop run vols s1 = (r, s')" by simp
    from Cons.IH [OF d1 c1 this] obtain ev2 where
      t2: "trace s' = trace s1 @ ev2"
      and e2: "\<forall>d args. Exec d args \<in> set ev2 \<longrightarrow> (\<exists>u q. args = [''sudo'', ''chown'', ''-R'', u, q] \<and> q \<noteq> p)"
      and w2: "r = Inr () \<longrightarrow> p \<in> fst ` set vols \<longrightarrow> ?W \<in> set ev2"
      by blast
    have "trace s' = trace s @ (ev1 @ ev2)" using t1 t2 by simp
    moreover have "\<forall>d args. Exec d args \<in> set (ev1 @ ev2) \<longrightarrow>
        (\<exists>u q. args = [''sudo'', ''chown'', ''-R'', u, q] \<and> q \<noteq> p)"
      using e1 e2 by auto
    moreover have "r = Inr () \<longrightarrow> p \<in> fst ` set (v # vols) \<longrightarrow> ?W \<in> set (ev1 @ ev2)"
      using w1 w2 s2 v by auto
    ultimately show ?thesis by blast
  qed
qed

lemma fix_volumes_ownership_missing:
  assumes stays: "\<forall>c u q h h'. run c [''sudo'', ''chown'', ''-R'', u, q] h = Inr h' \<longrightarrow>
                    \<not> isdir h (cwd s) p \<longrightarrow> \<not> isdir h' (cwd s) p"
      and "\<not> isdir (host s) (cwd s) p"
      and "fix_volumes_ownership run s = (r, s')"
  shows "\<exists>ev. trace s' = trace s @ ev \<and>
           (\<forall>d args. Exec d args \<in> set ev \<longrightarrow>
              (\<exists>u q. args = [''sudo'', ''chown'', ''-R'', u, q] \<and> q \<noteq> p)) \<and>
           (r = Inr () \<longrightarrow>
              (\<forall>vols s1. volumes_from_compose_file s = (Inr vols, s1) \<longrightarrow> p \<in> fst ` set vols \<longrightarrow>
              Print (nl @ ''WARNING: You should probably create and/or set non root owner of volume folder: ''
                     @ p @ nl) \<in> set ev))"
proof -
  from assms(3) have "bind volumes_from_compose_file (fix_volumes_loop run) s = (r, s')"
    by (simp add: fix_volumes_ownership_def)
  then show ?thesis
  proof (cases rule: bindE)
    case (err e)
    then have "quiet s s'" using volumes_from_compose_file_quiet by blast
    with err show ?thesis by (auto simp: quiet_def)
  next
    case (ok vols s1)
    then have q: "quiet s s1" using volumes_from_compose_file_quiet by blast
    then obtain ev0 where t0: "trace s1 = trace s @ ev0" and p0: "\<forall>e\<in>set ev0. \<exists>m. e = Print m"
      and h: "host s1 = host s" "cwd s1 = cwd s"
      by (auto simp: quiet_def)
    from fix_volumes_loop_missing [OF stays _ h(2) ok(2)] assms(2) h
    obtain ev where t: "trace s' = trace s1 @ ev"
      and e: "\<forall>d args. Exec d args \<in> set ev \<longrightarrow> (\<exists>u q. args = [''sudo'', ''chown'', ''-R'', u, q] \<and> q \<noteq> p)"
      and w: "r = Inr () \<longrightarrow> p \<in> fst ` set vols \<longrightarrow>
              Print (nl @ ''WARNING: You should probably create and/or set non root owner of volume folder: ''
                     @ p @ nl) \<in> set ev"
      by auto
    have "trace s' = trace s @ (ev0 @ ev)" using t0 t by simp
    moreover have "\<forall>d args. Exec d args \<in> set (ev0 @ ev) \<longrightarrow>
        (\<exists>u q. args = [''sudo'', ''chown'', ''-R'', u, q] \<and> q \<noteq> p)"
      using e p0 by auto
    moreover have "r = Inr () \<longrightarrow>
              (\<forall>vols s1. volumes_from_compose_file s = (Inr vols, s1) \<longrightarrow> p \<in> fst ` set vols \<longrightarrow>
              Print (nl @ ''WARNING: You should probably create and/or set non root owner of volume folder: ''
                     @ p @ nl) \<in> set (ev0 @ ev))"
      using w ok(1) by auto
    ultimately show ?thesis by blast
  qed
qed

lemma fix_s_app:
  "fst (fix_volumes_ownership run_chown s_app) = Inr () \<and>
   trace (snd (fix_volumes_ownership run_chown s_app)) =
     [Print (nl @ ''WARNING: Skipping volume, must start with /opt/ : /srv/y'' @ nl),
      Print (nl @ ''WARNING: You should probably create and/or set non root owner of volume folder: /srv/x'' @ nl),
      Print (''sudo mkdir -p /srv/x && sudo chown -R OWNER_HERE /srv/x'' @ nl),
      Exec ''/srv/app'' [''sudo'', ''chown'', ''-R'', ''alice'', ''/opt/app/data'']]"
  by (simp add: fix_volumes_ownership_def volumes_from_compose_file_def volume_step_def
      fix_volume_def s_app_def host_app_def run_chown_def lookup_uid_def eval_defs)

text \<open>
  C3.  A volume declared in the compose file whose host path \<open>p\<close> is not a directory
  (the test the source makes for a path that does not exist), with commands
  \<open>sudo chown -R\<close> that do not create \<open>p\<close> (other commands may).  The list the
  extractor returns holds \<open>(p, root)\<close>.  Every
  command the repairer runs is a recursive change of owner of a path other than \<open>p\<close>,
  whether it ends well or raises; when it ends well it has printed the warning about
  \<open>p\<close>.
\<close>

theorem missing_volume_reported_not_repaired:
  assumes "find_compose COMPOSE_FILES s = (Inr (Some f), s)"
      and "load_yaml (host s) (cwd s) f = Inr doc"
      and "services doc = Some svcs" and "map_of svcs name = Some svc"
      and "volumes svc = Some vs" and "volume \<in> set vs"
      and "p = hd (py_split CHR '':'' volume)"
      and "\<not> isdir (host s) (cwd s) p"
      and "\<forall>c u q h h'. run c [''sudo'', ''chown'', ''-R'', u, q] h = Inr h' \<longrightarrow>
             \<not> isdir h (cwd s) p \<longrightarrow> \<not> isdir h' (cwd s) p"
  shows "(volumes_from_compose_file s = (Inr vols, s1) \<longrightarrow> (p, ''root'') \<in> set vols) \<and>
         (fix_volumes_ownership run s = (r, s2) \<longrightarrow>
            (\<exists>ev. trace s2 = trace s @ ev \<and>
               (\<forall>d args. Exec d args \<in> set ev \<longrightarrow>
                  (\<exists>u q. args = [''sudo'', ''chown'', ''-R'', u, q] \<and> q \<noteq> p)) \<and>
               (r = Inr () \<longrightarrow>
                  Print (nl @ ''WARNING: You should probably create and/or set non root owner of volume folder: ''
                         @ p @ nl) \<in> set ev)))"
proof -
  have step: "\<forall>acc s1 acc' s'. host s1 = host s \<longrightarrow> cwd s1 = cwd s \<longrightarrow>
      volume_step volume acc s1 = (Inr acc', s') \<longrightarrow> (p, ''root'') \<in> set acc'"
    using assms(7,8) by (auto simp: volume_step_eq Let_def)
  have recorded: "(p, ''root'') \<in> set vols'" if "volumes_from_compose_file s = (Inr vols', s')"
    for vols' s'
    by (rule extractor_adds [OF step assms(1-6) that])
  have repair: "\<exists>ev. trace s2 = trace s @ ev \<and>
               (\<forall>d args. Exec d args \<in> set ev \<longrightarrow>
                  (\<exists>u q. args = [''sudo'', ''chown'', ''-R'', u, q] \<and> q \<noteq> p)) \<and>
               (r = Inr () \<longrightarrow>
                  Print (nl @ ''WARNING: You should probably create and/or set non root owner of volume folder: ''
                         @ p @ nl) \<in> set ev)"
    if run: "fix_volumes_ownership run s = (r, s2)"
  proof -
    from fix_volumes_ownership_missing [OF assms(9,8) run] obtain ev where
      t: "trace s2 = trace s @ ev"
      and e: "\<forall>d args. Exec d args \<in> set ev \<longrightarrow>
                  (\<exists>u q. args = [''sudo'', ''chown'', ''-R'', u, q] \<and> q \<noteq> p)"
      and w: "r = Inr () \<longrightarrow>
              (\<forall>vols s1. volumes_from_compose_file s = (Inr vols, s1) \<longrightarrow> p \<in> fst ` set vols \<longrightarrow>
              Print (nl @ ''WARNING: You should probably create and/or set non root owner of volume folder: ''
                     @ p @ nl) \<in> set ev)"
      by blast
    have "Print (nl @ ''WARNING: You should probably create and/or set non root owner of volume folder: ''
                     @ p @ nl) \<in> set ev" if ok: "r = Inr ()"
    proof -
      from run ok obtain vols' s' where x: "volumes_from_compose_file s = (Inr vols', s')"
        by (auto simp: fix_volumes_ownership_def bind_Inr_iff)
      then have "p \<in> fst ` set vols'" using recorded by force
      with w ok x show ?thesis by blast
    qed
    with t e show ?thesis by blast
  qed
  from recorded repair show ?thesis by blast
qed

theorem missing_volume_reported_not_repaired_witness:
  "(''/srv/x'', ''root'') \<in> set [(''/srv/x'', ''root''), (''/opt/app/data'', ''alice'')] \<and>
   (\<exists>ev. trace (snd (fix_volumes_ownership run_chown s_app)) = trace s_app @ ev \<and>
      (\<forall>d args. Exec d args \<in> set ev \<longrightarrow>
         (\<exists>u q. args = [''sudo'', ''chown'', ''-R'', u, q] \<and> q \<noteq> ''/srv/x'')) \<and>
      Print (nl @ ''WARNING: You should probably create and/or set non root owner of volume folder: ''
             @ ''/srv/x'' @ nl) \<in> set ev) \<and>
   Exec ''/srv/app'' [''sudo'', ''chown'', ''-R'', ''alice'', ''/opt/app/data''] \<in>
     set (trace (snd (fix_volumes_ownership run_chown s_app)))"
proof -
  have 1: "find_compose COMPOSE_FILES s_app = (Inr (Some ''./docker-compose.yml''), s_app)"
    by (simp add: s_app_def host_app_def eval_defs)
  have 2: "load_yaml (host s_app) (cwd s_app) ''./docker-compose.yml'' = Inr \<lparr>services = Some
         [(''web'', \<lparr>volumes = Some [''/srv/x:/x'', ''/srv/y:/y'']\<rparr>),
          (''cache'', \<lparr>volumes = None\<rparr>),
          (''db'', \<lparr>volumes = Some [''/opt/app/data:/data'']\<rparr>)]\<rparr>"
    by (simp add: s_app_def host_app_def)
  have 3: "services \<lparr>services = Some
         [(''web'', \<lparr>volumes = Some [''/srv/x:/x'', ''/srv/y:/y'']\<rparr>),
          (''cache'', \<lparr>volumes = None\<rparr>),
          (''db'', \<lparr>volumes = Some [''/opt/app/data:/data'']\<rparr>)]\<rparr> = Some
         [(''web'', \<lparr>volumes = Some [''/srv/x:/x'', ''/srv/y:/y'']\<rparr>),
          (''cache'', \<lparr>volumes = None\<rparr>),
          (''db'', \<lparr>volumes = Some [''/opt/app/data:/data'']\<rparr>)]"
    by simp
  have 4: "map_of [(''web'', \<lparr>volumes = Some [''/srv/x:/x'', ''/srv/y:/y'']\<rparr>),
          (''cache'', \<lparr>volumes = None\<rparr>),
          (''db'', \<lparr>volumes = Some [''/opt/app/data:/data'']\<rparr>)] ''web'' =
        Some \<lparr>volumes = Some [''/srv/x:/x'', ''/srv/y:/y'']\<rparr>"
    by simp
  have 5: "volumes \<lparr>volumes = Some [''/srv/x:/x'', ''/srv/y:/y'']\<rparr> = Some [''/srv/x:/x'', ''/srv/y:/y'']"
    by simp
  have 6: "''/srv/x:/x'' \<in> set [''/srv/x:/x'', ''/srv/y:/y'']" by simp
  have 7: "''/srv/x'' = hd (py_split CHR '':'' ''/srv/x:/x'')" by simp
  have 8: "\<not> isdir (host s_app) (cwd s_app) ''/srv/x''" by (simp add: s_app_def host_app_def)
  have 9: "\<forall>c u q h h'. run_chown c [''sudo'', ''chown'', ''-R'', u, q] h = Inr h' \<longrightarrow>
             \<not> isdir h (cwd s_app) ''/srv/x'' \<longrightarrow> \<not> isdir h' (cwd s_app) ''/srv/x''"
    by (auto simp: run_chown_def split: option.splits)
  have 10: "fix_volumes_ownership run_chown s_app = (Inr (), snd (fix_volumes_ownership run_chown s_app))"
    using fix_s_app by (cases "fix_volumes_ownership run_chown s_app") simp
  from missing_volume_reported_not_repaired [OF 1 2 3 4 5 6 7 8 9,
      of "[(''/srv/x'', ''root''), (''/opt/app/data'', ''alice'')]" _ "Inr ()"
         "snd (fix_volumes_ownership run_chown s_app)"]
    extract_s_app 10
  have "(''/srv/x'', ''root'') \<in> set [(''/srv/x'', ''root''), (''/opt/app/data'', ''alice'')] \<and>
   (\<exists>ev. trace (snd (fix_volumes_ownership run_chown s_app)) = trace s_app @ ev \<and>
      (\<forall>d args. Exec d args \<in> set ev \<longrightarrow>
         (\<exists>u q. args = [''sudo'', ''chown'', ''-R'', u, q] \<and> q \<noteq> ''/srv/x'')) \<and>
      Print (nl @ ''WARNING: You should probably create and/or set non root owner of volume folder: ''
             @ ''/srv/x'' @ nl) \<in> set ev)"
    by simp
  moreover have "Exec ''/srv/app'' [''sudo'', ''chown'', ''-R'', ''alice'', ''/opt/app/data''] \<in>
     set (trace (snd (fix_volumes_ownership run_chown s_app)))"
    using fix_s_app by simp
  ultimately show ?thesis by blast
qed

section \<open>The lifecycle actions\<close>

lemma check_compose_file_Inr:
  "check_compose_file project_path s = (Inr (), s1) \<longleftrightarrow>
     (\<exists>d f c1. (case project_path of None \<Rightarrow> Some (cwd s) | Some p \<Rightarrow> chdir_to (host s) (cwd s) p) = Some d \<and>
        find (\<lambda>f. isfile (host s) d f) COMPOSE_FILES = Some f \<and>
        chdir_to (host s) d (cwd s) = Some c1 \<and> s1 = s\<lparr>cwd := c1\<rparr>)"
  by (cases project_path)
     (auto simp: check_compose_file_def change_cwd_eq find_compose_eq bind_def seq_def os_chdir_def
        print_line_def sys_exit_def raise_def split: option.splits)

lemma change_cwd_Inr:
  "change_cwd project_path s = (Inr old, s1) \<longleftrightarrow>
     (\<exists>d. (case project_path of None \<Rightarrow> Some (cwd s) | Some p \<Rightarrow> chdir_to (host s) (cwd s) p) = Some d \<and>
        old = cwd s \<and> s1 = s\<lparr>cwd := d\<rparr>)"
  by (cases project_path) (auto simp: change_cwd_eq split: option.splits)

lemma fix_volume_frame:
  "fix_volume run v s = (r, s') \<Longrightarrow> cwd s' = cwd s \<and> (\<exists>ev. trace s' = trace s @ ev)"
  by (cases v) (auto simp: fix_volume_eq check_call_eq split: if_splits option.splits sum.splits)

lemma fix_volumes_loop_frame:
  "fix_volumes_loop run vols s = (r, s') \<Longrightarrow> cwd s' = cwd s \<and> (\<exists>ev. trace s' = trace s @ ev)"
proof (induction vols arbitrary: s)
  case Nil
  then show ?case by (simp add: ret_def)
next
  case (Cons v vols)
  from Cons.prems have "bind (fix_volume run v) (\<lambda>_. fix_volumes_loop run vols) s = (r, s')"
    by (simp add: seq_def)
  then show ?case
  proof (cases rule: bindE)
    case (err e)
    then show ?thesis using fix_volume_frame by blast
  next
    case (ok x s1)
    from fix_volume_frame [OF ok(1)] Cons.IH [OF ok(2)] show ?thesis by auto
  qed
qed

lemma fix_volumes_ownership_frame:
  "fix_volumes_ownership run s = (r, s') \<Longrightarrow> cwd s' = cwd s \<and> (\<exists>ev. trace s' = trace s @ ev)"
proof -
  assume "fix_volumes_ownership run s = (r, s')"
  then have "bind volumes_from_compose_file (fix_volumes_loop run) s = (r, s')"
    by (simp add: fix_volumes_ownership_def)
  then show ?thesis
  proof (cases rule: bindE)
    case (err e)
    then show ?thesis using volumes_from_compose_file_quiet by (fastforce simp: quiet_def)
  next
    case (ok x s1)
    from volumes_from_compose_file_quiet [OF ok(1)] fix_volumes_loop_frame [OF ok(2)]
    show ?thesis by (auto simp: quiet_def)
  qed
qed

text \<open>One compose subcommand between the change of directory and its way back.\<close>

lemma bracket_Inr:
  assumes "seq (check_compose_file project_path)
             (bind (change_cwd project_path) (\<lambda>old_cwd.
                seq (check_call run args) (os_chdir old_cwd))) s = (Inr (), s')"
  shows "\<exists>d c1 d1 h.
           (case project_path of None \<Rightarrow> Some (cwd s) | Some p \<Rightarrow> chdir_to (host s) (cwd s) p) = Some d \<and>
           chdir_to (host s) d (cwd s) = Some c1 \<and>
           (case project_path of None \<Rightarrow> Some c1 | Some p \<Rightarrow> chdir_to (host s) c1 p) = Some d1 \<and>
           run d1 args (host s) = Inr h \<and>
           chdir_to h d1 c1 = Some (cwd s') \<and>
           host s' = h \<and> trace s' = trace s @ [Exec d1 args]"
  using assms
  by (cases project_path)
     (auto simp: seq_Inr_iff bind_Inr_iff check_compose_file_Inr change_cwd_Inr check_call_Inr os_chdir_Inr)

lemma up_action_Inr:
  assumes "up_action run project_path s = (Inr (), s')"
  shows "\<exists>d c1 d1 s2 s3 h.
           (case project_path of None \<Rightarrow> Some (cwd s) | Some p \<Rightarrow> chdir_to (host s) (cwd s) p) = Some d \<and>
           chdir_to (host s) d (cwd s) = Some c1 \<and>
           (case project_path of None \<Rightarrow> Some c1 | Some p \<Rightarrow> chdir_to (host s) c1 p) = Some d1 \<and>
           s2 = s\<lparr>cwd := d1\<rparr> \<and>
           fix_volumes_ownership run s2 = (Inr (), s3) \<and>
           run d1 [''docker-compose'', ''up'', ''-d''] (host s3) = Inr h \<and>
           chdir_to h d1 c1 = Some (cwd s') \<and>
           host s' = h \<and> trace s' = trace s3 @ [Exec d1 [''docker-compose'', ''up'', ''-d'']]"
proof -
  from assms obtain d c1 d1 s3 s4 where
    1: "(case project_path of None \<Rightarrow> Some (cwd s) | Some p \<Rightarrow> chdir_to (host s) (cwd s) p) = Some d"
    and 2: "chdir_to (host s) d (cwd s) = Some c1"
    and 3: "(case project_path of None \<Rightarrow> Some c1 | Some p \<Rightarrow> chdir_to (host s) c1 p) = Some d1"
    and 4: "fix_volumes_ownership run (s\<lparr>cwd := d1\<rparr>) = (Inr (), s3)"
    and 5: "check_call run [''docker-compose'', ''up'', ''-d''] s3 = (Inr (), s4)"
    and 6: "os_chdir c1 s4 = (Inr (), s')"
    by (cases project_path)
       (auto simp: up_action_def seq_Inr_iff bind_Inr_iff check_compose_file_Inr change_cwd_Inr)
  from fix_volumes_ownership_frame [OF 4] have c3: "cwd s3 = d1" by simp
  from 5 6 c3 obtain h where
    "run d1 [''docker-compose'', ''up'', ''-d''] (host s3) = Inr h"
    "chdir_to h d1 c1 = Some (cwd s')" "host s' = h"
    "trace s' = trace s3 @ [Exec d1 [''docker-compose'', ''up'', ''-d'']]"
    by (auto simp: check_call_Inr os_chdir_Inr)
  with 1 2 3 4 show ?thesis by blast
qed

lemma same_target:
  assumes "chdir_to (host s) d (cwd s) = None \<or> chdir_to (host s) d (cwd s) = Some (cwd s)"
      and "(case project_path of None \<Rightarrow> Some (cwd s) | Some p \<Rightarrow> chdir_to (host s) (cwd s) p) = Some d"
      and "(case project_path of None \<Rightarrow> Some (cwd s) | Some p \<Rightarrow> chdir_to (host s) (cwd s) p) = Some d0"
      and "chdir_to (host s) d0 (cwd s) = Some c1"
      and "(case project_path of None \<Rightarrow> Some c1 | Some p \<Rightarrow> chdir_to (host s) c1 p) = Some d1"
  shows "c1 = cwd s \<and> d1 = d"
proof -
  from assms(2,3) have "d0 = d" by simp
  with assms(1,4) have c: "c1 = cwd s" by auto
  from assms(5) have "(case project_path of None \<Rightarrow> Some (cwd s) | Some p \<Rightarrow> chdir_to (host s) (cwd s) p) = Some d1"
    unfolding c .
  with assms(2) have "d1 = d" by simp
  with c show ?thesis by simp
qed

lemma up_home:
  "up_action run_ok (Some ''/srv/app'') s_home =
     (Inr (),
      s_home\<lparr>trace :=
        [Print (nl @ ''WARNING: Skipping volume, must start with /opt/ : /srv/y'' @ nl),
         Print (nl @ ''WARNING: You should probably create and/or set non root owner of volume folder: /srv/x'' @ nl),
         Print (''sudo mkdir -p /srv/x && sudo chown -R OWNER_HERE /srv/x'' @ nl),
         Exec ''/srv/app'' [''sudo'', ''chown'', ''-R'', ''alice'', ''/opt/app/data''],
         Exec ''/srv/app'' [''docker-compose'', ''up'', ''-d'']]\<rparr>)"
  by (simp add: up_action_def check_compose_file_def fix_volumes_ownership_def
      volumes_from_compose_file_def volume_step_def
      fix_volume_def s_home_def host_app_def run_ok_def eval_defs)

lemma down_home:
  "down_action run_ok (Some ''/srv/app'') s_home =
     (Inr (), s_home\<lparr>trace := [Exec ''/srv/app'' [''docker-compose'', ''down'']]\<rparr>)"
  by (simp add: down_action_def check_compose_file_def s_home_def host_app_def run_ok_def eval_defs)

lemma build_home:
  "build run_ok (Some ''/srv/app'') s_home =
     (Inr (), s_home\<lparr>trace := [Exec ''/srv/app'' [''docker-compose'', ''build'']]\<rparr>)"
  by (simp add: build_def check_compose_file_def s_home_def host_app_def run_ok_def eval_defs)

text \<open>
  C6.  \<open>up\<close>, \<open>down\<close> and \<open>build\<close> on a project path that leads to the directory
  \<open>d\<close> (no path: the working directory itself).  The name \<open>os.getcwd()\<close> gave for the
  working directory is the name of that directory: changing into it, where that works,
  leads there, on the host before and after the action.  Then an action that ends well
  has run its compose subcommand in \<open>d\<close>, as its last command, and ends in the working
  directory it started in.
\<close>

theorem actions_restore_cwd:
  assumes "chdir_to (host s) d (cwd s) = None \<or> chdir_to (host s) d (cwd s) = Some (cwd s)"
      and "chdir_to (host s') d (cwd s) = None \<or> chdir_to (host s') d (cwd s) = Some (cwd s)"
      and "(case project_path of None \<Rightarrow> Some (cwd s) | Some p \<Rightarrow> chdir_to (host s) (cwd s) p) = Some d"
  shows "(up_action run project_path s = (Inr (), s') \<longrightarrow>
            cwd s' = cwd s \<and>
            (\<exists>pre. trace s' = trace s @ pre @ [Exec d [''docker-compose'', ''up'', ''-d'']])) \<and>
         (down_action run project_path s = (Inr (), s') \<longrightarrow>
            cwd s' = cwd s \<and> trace s' = trace s @ [Exec d [''docker-compose'', ''down'']]) \<and>
         (build run project_path s = (Inr (), s') \<longrightarrow>
            cwd s' = cwd s \<and> trace s' = trace s @ [Exec d [''docker-compose'', ''build'']])"
proof -
  have bracket: "cwd s' = cwd s \<and> trace s' = trace s @ [Exec d args]"
    if run: "seq (check_compose_file project_path)
             (bind (change_cwd project_path) (\<lambda>old_cwd.
                seq (check_call run args) (os_chdir old_cwd))) s = (Inr (), s')" for args
  proof -
    from bracket_Inr [OF run] obtain d0 c1 d1 h where
      1: "(case project_path of None \<Rightarrow> Some (cwd s) | Some p \<Rightarrow> chdir_to (host s) (cwd s) p) = Some d0"
      and 2: "chdir_to (host s) d0 (cwd s) = Some c1"
      and 3: "(case project_path of None \<Rightarrow> Some c1 | Some p \<Rightarrow> chdir_to (host s) c1 p) = Some d1"
      and 4: "chdir_to h d1 c1 = Some (cwd s')" "host s' = h"
      and 5: "trace s' = trace s @ [Exec d1 args]"
      by blast
    from same_target [OF assms(1,3) 1 2 3] have "c1 = cwd s" "d1 = d" by simp_all
    with 4 5 assms(2) show ?thesis by auto
  qed
  have up: "cwd s' = cwd s \<and>
            (\<exists>pre. trace s' = trace s @ pre @ [Exec d [''docker-compose'', ''up'', ''-d'']])"
    if run: "up_action run project_path s = (Inr (), s')"
  proof -
    from up_action_Inr [OF run] obtain d0 c1 d1 s3 h where
      1: "(case project_path of None \<Rightarrow> Some (cwd s) | Some p \<Rightarrow> chdir_to (host s) (cwd s) p) = Some d0"
      and 2: "chdir_to (host s) d0 (cwd s) = Some c1"
      and 3: "(case project_path of None \<Rightarrow> Some c1 | Some p \<Rightarrow> chdir_to (host s) c1 p) = Some d1"
      and f: "fix_volumes_ownership run (s\<lparr>cwd := d1\<rparr>) = (Inr (), s3)"
      and 4: "chdir_to h d1 c1 = Some (cwd s')" "host s' = h"
      and 5: "trace s' = trace s3 @ [Exec d1 [''docker-compose'', ''up'', ''-d'']]"
      by blast
    from same_target [OF assms(1,3) 1 2 3] have e: "c1 = cwd s" "d1 = d" by simp_all
    from fix_volumes_ownership_frame [OF f] obtain pre where "trace s3 = trace s @ pre" by auto
    with e 4 5 assms(2) show ?thesis by auto
  qed
  from up bracket [of "[''docker-compose'', ''down'']"] bracket [of "[''docker-compose'', ''build'']"]
  show ?thesis by (simp add: down_action_def build_def)
qed

theorem actions_restore_cwd_witness:
  "cwd (snd (up_action run_ok (Some ''/srv/app'') s_home)) = ''/home/u'' \<and>
   (\<exists>pre. trace (snd (up_action run_ok (Some ''/srv/app'') s_home)) =
      trace s_home @ pre @ [Exec ''/srv/app'' [''docker-compose'', ''up'', ''-d'']]) \<and>
   cwd (snd (down_action run_ok (Some ''/srv/app'') s_home)) = ''/home/u'' \<and>
   trace (snd (down_action run_ok (Some ''/srv/app'') s_home)) =
     [Exec ''/srv/app'' [''docker-compose'', ''down'']] \<and>
   cwd (snd (build run_ok (Some ''/srv/app'') s_home)) = ''/home/u'' \<and>
   trace (snd (build run_ok (Some ''/srv/app'') s_home)) =
     [Exec ''/srv/app'' [''docker-compose'', ''build'']]"
proof -
  have 1: "chdir_to (host s_home) ''/srv/app'' (cwd s_home) = None \<or>
           chdir_to (host s_home) ''/srv/app'' (cwd s_home) = Some (cwd s_home)"
    by (simp add: s_home_def host_app_def)
  have 2: "chdir_to (host (snd (act run_ok (Some ''/srv/app'') s_home))) ''/srv/app'' (cwd s_home) = None \<or>
           chdir_to (host (snd (act run_ok (Some ''/srv/app'') s_home))) ''/srv/app'' (cwd s_home) =
             Some (cwd s_home)"
    if "act = up_action \<or> act = down_action \<or> act = build" for act
    using that by (auto simp: up_home down_home build_home) (simp_all add: s_home_def host_app_def)
  have 3: "(case Some ''/srv/app'' of None \<Rightarrow> Some (cwd s_home)
            | Some p \<Rightarrow> chdir_to (host s_home) (cwd s_home) p) = Some ''/srv/app''"
    by (simp add: s_home_def host_app_def)
  have u: "up_action run_ok (Some ''/srv/app'') s_home =
             (Inr (), snd (up_action run_ok (Some ''/srv/app'') s_home))"
    by (simp add: up_home)
  have d: "down_action run_ok (Some ''/srv/app'') s_home =
             (Inr (), snd (down_action run_ok (Some ''/srv/app'') s_home))"
    by (simp add: down_home)
  have b: "build run_ok (Some ''/srv/app'') s_home =
             (Inr (), snd (build run_ok (Some ''/srv/app'') s_home))"
    by (simp add: build_home)
  from actions_restore_cwd [OF 1 2 [of up_action] 3, where run = run_ok] u
  have U: "cwd (snd (up_action run_ok (Some ''/srv/app'') s_home)) = cwd s_home \<and>
     (\<exists>pre. trace (snd (up_action run_ok (Some ''/srv/app'') s_home)) =
        trace s_home @ pre @ [Exec ''/srv/app'' [''docker-compose'', ''up'', ''-d'']])"
    by simp
  from actions_restore_cwd [OF 1 2 [of down_action] 3, where run = run_ok] d
  have D: "cwd (snd (down_action run_ok (Some ''/srv/app'') s_home)) = cwd s_home \<and>
     trace (snd (down_action run_ok (Some ''/srv/app'') s_home)) =
       trace s_home @ [Exec ''/srv/app'' [''docker-compose'', ''down'']]"
    by simp
  from actions_restore_cwd [OF 1 2 [of build] 3, where run = run_ok] b
  have B: "cwd (snd (build run_ok (Some ''/srv/app'') s_home)) = cwd s_home \<and>
     trace (snd (build run_ok (Some ''/srv/app'') s_home)) =
       trace s_home @ [Exec ''/srv/app'' [''docker-compose'', ''build'']]"
    by simp
  from U D B show ?thesis by (simp add: s_home_def)
qed

section \<open>Deploy\<close>

text \<open>
  What the repair of the owners and the loop of \<open>backup\<close> add to the trace: lines, and
  commands \<open>sudo chown -R\<close> run in the current directory.
\<close>

lemma fix_volume_events:
  "fix_volume run v s = (r, s') \<Longrightarrow>
     cwd s' = cwd s \<and>
     (\<exists>ev. trace s' = trace s @ ev \<and>
        (\<forall>e\<in>set ev. (\<exists>m. e = Print m) \<or> (\<exists>u q. e = Exec (cwd s) [''sudo'', ''chown'', ''-R'', u, q])))"
  by (cases v) (auto simp: fix_volume_eq check_call_eq split: if_splits option.splits sum.splits)

lemma fix_volumes_loop_events:
  "fix_volumes_loop run vols s = (r, s') \<Longrightarrow>
     cwd s' = cwd s \<and>
     (\<exists>ev. trace s' = trace s @ ev \<and>
        (\<forall>e\<in>set ev. (\<exists>m. e = Print m) \<or> (\<exists>u q. e = Exec (cwd s) [''sudo'', ''chown'', ''-R'', u, q])))"
proof (induction vols arbitrary: s)
  case Nil
  then show ?case by (simp add: ret_def)
next
  case (Cons v vols)
  from Cons.prems have "bind (fix_volume run v) (\<lambda>_. fix_volumes_loop run vols) s = (r, s')"
    by (simp add: seq_def)
  then show ?case
  proof (cases rule: bindE)
    case (err e)
    from fix_volume_events [OF err(1)] show ?thesis unfolding err(2) .
  next
    case (ok x s1)
    from fix_volume_events [OF ok(1)] obtain ev1 where
      a: "cwd s1 = cwd s" "trace s1 = trace s @ ev1"
      "\<forall>e\<in>set ev1. (\<exists>m. e = Print m) \<or> (\<exists>u q. e = Exec (cwd s) [''sudo'', ''chown'', ''-R'', u, q])"
      by (elim conjE exE)
    from Cons.IH [OF ok(2)] obtain ev2 where
      b: "cwd s' = cwd s1" "trace s' = trace s1 @ ev2"
      "\<forall>e\<in>set ev2. (\<exists>m. e = Print m) \<or> (\<exists>u q. e = Exec (cwd s1) [''sudo'', ''chown'', ''-R'', u, q])"
      by (elim conjE exE)
    have 1: "cwd s' = cwd s" using a(1) b(1) by simp
    have 2: "trace s' = trace s @ (ev1 @ ev2)" using a(2) b(2) by simp
    have 3: "\<forall>e\<in>set (ev1 @ ev2). (\<exists>m. e = Print m) \<or>
        (\<exists>u q. e = Exec (cwd s) [''sudo'', ''chown'', ''-R'', u, q])"
      using a(3) b(3) unfolding a(1) set_append by (intro ballI) (elim UnE; simp)
    from 1 2 3 show ?thesis by (intro conjI exI [of _ "ev1 @ ev2"])
  qed
qed

lemma fix_volumes_ownership_events:
  assumes "fix_volumes_ownership run s = (r, s')"
  shows "\<exists>ev. trace s' = trace s @ ev \<and>
        (\<forall>e\<in>set ev. (\<exists>m. e = Print m) \<or> (\<exists>u q. e = Exec (cwd s) [''sudo'', ''chown'', ''-R'', u, q]))"
proof -
  from assms have "bind volumes_from_compose_file (fix_volumes_loop run) s = (r, s')"
    by (simp add: fix_volumes_ownership_def)
  then show ?thesis
  proof (cases rule: bindE)
    case (err e)
    from volumes_from_compose_file_quiet [OF err(1)] obtain ev where
      "trace s' = trace s @ ev" "\<forall>e\<in>set ev. \<exists>m. e = Print m"
      unfolding quiet_def by (elim conjE exE)
    then show ?thesis by (intro exI [of _ ev]) simp
  next
    case (ok x s1)
    from volumes_from_compose_file_quiet [OF ok(1)] obtain ev1 where
      a: "cwd s1 = cwd s" "trace s1 = trace s @ ev1" "\<forall>e\<in>set ev1. \<exists>m. e = Print m"
      unfolding quiet_def by (elim conjE exE)
    from fix_volumes_loop_events [OF ok(2)] obtain ev2 where
      b: "trace s' = trace s1 @ ev2"
      "\<forall>e\<in>set ev2. (\<exists>m. e = Print m) \<or> (\<exists>u q. e = Exec (cwd s1) [''sudo'', ''chown'', ''-R'', u, q])"
      by (elim conjE exE)
    have 2: "trace s' = trace s @ (ev1 @ ev2)" using a(2) b(1) by simp
    have 3: "\<forall>e\<in>set (ev1 @ ev2). (\<exists>m. e = Print m) \<or>
        (\<exists>u q. e = Exec (cwd s) [''sudo'', ''chown'', ''-R'', u, q])"
      using a(3) b(2) unfolding a(1) set_append by (intro ballI) (elim UnE; simp)
    from 2 3 show ?thesis by (intro conjI exI [of _ "ev1 @ ev2"])
  qed
qed

lemma entry_loop_events:
  "entry_loop run from_path to_path es s = (r, s') \<Longrightarrow>
     \<exists>ev. trace s' = trace s @ ev \<and>
        (\<forall>e\<in>set ev. \<exists>u entry. entry \<in> set es \<and>
           e = Exec (cwd s) [''sudo'', ''chown'', ''-R'', u, to_path @ ''/'' @ entry])"
proof (induction es arbitrary: s)
  case Nil
  then show ?case by (simp add: ret_def)
next
  case (Cons x es)
  from Cons.prems have "bind (owner_of (from_path @ ''/'' @ x)) (\<lambda>owner_username.
       seq (check_call run [''sudo'', ''chown'', ''-R'', owner_username, to_path @ ''/'' @ x])
           (entry_loop run from_path to_path es)) s = (r, s')"
    by simp
  then show ?case
  proof (cases rule: bindE)
    case (err e)
    from owner_of_state [OF err(1)] show ?thesis by simp
  next
    case (ok u s1)
    from owner_of_state [OF ok(1)] have s1: "s1 = s" .
    let ?e = "Exec (cwd s) [''sudo'', ''chown'', ''-R'', u, to_path @ ''/'' @ x]"
    from ok(2) have "bind (check_call run [''sudo'', ''chown'', ''-R'', u, to_path @ ''/'' @ x])
        (\<lambda>_. entry_loop run from_path to_path es) s = (r, s')"
      unfolding s1 seq_def .
    then show ?thesis
    proof (cases rule: bindE)
      case (err e)
      then have "trace s' = trace s @ [?e]"
        by (auto simp: check_call_eq split: sum.splits)
      then show ?thesis by (intro exI [of _ "[?e]"]) simp
    next
      case (ok y s2)
      from ok(1) have c: "cwd s2 = cwd s" and t: "trace s2 = trace s @ [?e]"
        by (auto simp: check_call_eq split: sum.splits)
      from Cons.IH [OF ok(2)] obtain ev where
        b: "trace s' = trace s2 @ ev"
        "\<forall>e\<in>set ev. \<exists>u entry. entry \<in> set es \<and>
           e = Exec (cwd s2) [''sudo'', ''chown'', ''-R'', u, to_path @ ''/'' @ entry]"
        by (elim conjE exE)
      have 2: "trace s' = trace s @ (?e # ev)" using t b(1) by simp
      have 3: "\<forall>e\<in>set (?e # ev). \<exists>u entry. entry \<in> set (x # es) \<and>
           e = Exec (cwd s) [''sudo'', ''chown'', ''-R'', u, to_path @ ''/'' @ entry]"
        using b(2) unfolding c by auto
      from 2 3 show ?thesis by (intro conjI exI [of _ "?e # ev"])
    qed
  qed
qed

text \<open>
  Forward execution: the state in which an action ends when each of its steps succeeds.
\<close>

lemma bind_getcwd: "bind os_getcwd f s = f (cwd s) s"
  by (simp add: bind_def os_getcwd_def)

lemma bind_abspath: "bind (os_path_abspath (Some p)) f s = f (abspath (host s) (cwd s) p) s"
  by (simp add: bind_def os_path_abspath_def)

lemma bind_now: "bind datetime_now f s = f (now_utc (host s)) s"
  by (simp add: bind_def datetime_now_def)


lemma find_some: "\<exists>f\<in>set cs. P f \<Longrightarrow> \<exists>f. find P cs = Some f"
  by (induction cs) auto

lemma state_cwd_same: "cwd s = r \<Longrightarrow> s\<lparr>cwd := r\<rparr> = s"
  by (cases s) simp

lemma check_compose_file_run:
  assumes "project_at h r path d" "cwd s = r" "host s = h"
  shows "check_compose_file (Some path) s = (Inr (), s)"
proof -
  from assms(1) obtain f where "find (\<lambda>f. isfile h d f) COMPOSE_FILES = Some f"
    unfolding project_at_def using find_some [of COMPOSE_FILES "\<lambda>f. isfile h d f"] by blast
  with assms show ?thesis
    by (simp add: check_compose_file_def change_cwd_eq find_compose_eq prim_defs project_at_def
        state_cwd_same)
qed

lemma bracket_run:
  assumes "bracket_ok run h r path d args h'" "cwd s = r" "host s = h"
  shows "seq (check_compose_file (Some path))
           (bind (change_cwd (Some path)) (\<lambda>old_cwd.
              seq (check_call run args) (os_chdir old_cwd))) s =
         (Inr (), s\<lparr>host := h', trace := trace s @ [Exec d args]\<rparr>)"
proof -
  from assms have p: "project_at h r path d" and r: "run d args h = Inr h'"
    and b: "chdir_to h' d r = Some r" and c: "chdir_to h r path = Some d"
    by (simp_all add: bracket_ok_def project_at_def)
  have "check_compose_file (Some path) s = (Inr (), s)"
    by (rule check_compose_file_run [OF p assms(2,3)])
  with r b c assms(2,3) show ?thesis
    by (simp add: seq_def bind_def change_cwd_eq check_call_eq os_chdir_def)
qed

lemma up_run:
  assumes "project_at h r path d" "cwd s = r" "host s = h"
      and "fix_volumes_ownership run (s\<lparr>cwd := d\<rparr>) = (Inr (), s10)"
      and "run d [''docker-compose'', ''up'', ''-d''] (host s10) = Inr h11"
      and "chdir_to h11 d r = Some r"
  shows "up_action run (Some path) s =
         (Inr (), s10\<lparr>cwd := r, host := h11,
                      trace := trace s10 @ [Exec d [''docker-compose'', ''up'', ''-d'']]\<rparr>)"
proof -
  have k: "check_compose_file (Some path) s = (Inr (), s)"
    by (rule check_compose_file_run [OF assms(1-3)])
  from assms(1) have c: "chdir_to h r path = Some d" by (simp add: project_at_def)
  from fix_volumes_ownership_frame [OF assms(4)] have c10: "cwd s10 = d" by simp
  from k c c10 assms(2-) show ?thesis
    by (simp add: up_action_def seq_def bind_def change_cwd_eq check_call_eq os_chdir_def)
qed

lemma backup_run:
  assumes "chdir_to h r path = Some d" "cwd s = r" "host s = h"
      and "data = ''/opt/'' @ last (py_split CHR ''/'' d) @ ''/data''"
      and "backups = ''/opt/'' @ last (py_split CHR ''/'' d) @ ''/backup''"
      and "snapshot = ''/opt/'' @ last (py_split CHR ''/'' d) @ ''/backup/data_'' @
             strftime_utc (now_utc h6)"
      and "isdir h d data"
      and "run d [''sudo'', ''mkdir'', ''-p'', backups] h = Inr h6"
      and "run d [''sudo'', ''cp'', ''-r'', data, snapshot] h6 = Inr h7"
      and "run d [''sudo'', ''chown'', ''700'', snapshot] h7 = Inr h8"
      and "listdir h8 d data = Some entries"
      and "entry_loop run data snapshot entries
             (s\<lparr>cwd := d, host := h8,
              trace := trace s @
                [Exec d [''sudo'', ''mkdir'', ''-p'', backups],
                 Exec d [''sudo'', ''cp'', ''-r'', data, snapshot],
                 Exec d [''sudo'', ''chown'', ''700'', snapshot]]\<rparr>)
           = (Inr (), s9)"
      and "chdir_to (host s9) d r = Some r"
  shows "backup run (Some path) s =
         (Inr (), s9\<lparr>cwd := r, trace := trace s9 @
            [Print (nl @ ''Backed up data to '' @ snapshot @ nl)]\<rparr>)"
proof -
  from entry_loop_cwd [OF assms(12)] have c9: "cwd s9 = d" by simp
  from assms c9 show ?thesis
    unfolding backup_def
    by (simp add: change_cwd_eq bind_def seq_def os_getcwd_def os_path_isdir_def check_call_eq
        datetime_now_def os_listdir_def print_line_def os_chdir_def Let_def)
qed

lemma seq_step: "m s = (Inr (), s1) \<Longrightarrow> k s1 = r \<Longrightarrow> seq m k s = r"
  by (simp add: seq_def bind_def)

lemma run_tick_at: "run_tick c args (host_at n) = Inr (host_at (Suc n))"
  by (simp add: run_tick_def host_at_def t0_def)

lemma host_at_fields:
  "chdir_to (host_at n) = chdir_to host_deploy"
  "isfile (host_at n) = isfile host_deploy"
  "isdir (host_at n) = isdir host_deploy"
  "listdir (host_at n) = listdir host_deploy"
  "stat_uid (host_at n) = stat_uid host_deploy"
  "getpwuid (host_at n) = getpwuid host_deploy"
  "load_yaml (host_at n) = load_yaml host_deploy"
  "abspath (host_at n) = abspath host_deploy"
  "now_utc (host_at n) = t0\<lparr>second := 5 + n\<rparr>"
  by (simp_all add: host_at_def)

text \<open>
  C4.  \<open>deploy\<close> with a replace target, both paths made absolute first, called in the
  state \<open>s\<close>; \<open>r\<close> is the root directory, \<open>dr\<close> the directory of the replace target
  and \<open>dp\<close> that of the new project.

  When there is no compose file at the replace target, \<open>deploy\<close> exits with status 1
  before any command.

  Otherwise, when each step succeeds and the data directory \<open>/opt/<app>/data\<close> exists,
  \<open>deploy\<close> ends well and has run exactly these commands, in this order: 
  \<open>docker-compose build\<close> in \<open>dp\<close>; \<open>docker-compose down\<close> in \<open>dr\<close>; in \<open>r\<close>, \<open>mv\<close> of
  the replace path to \<open><replace path>_<time stamp>_utc\<close>, the time stamp read from the
  host as the first \<open>down\<close> left it, and \<open>cp -r\<close> of the new project to the replace
  path; then, in \<open>dr\<close>, the steps of \<open>backup_action\<close> on the replace path:
  \<open>docker-compose down\<close>, \<open>sudo mkdir -p\<close> of the backup directory, \<open>sudo cp -r\<close> of the
  data directory to the snapshot \<open>/opt/<app>/backup/data_<time stamp>_utc\<close>,
  \<open>sudo chown 700\<close> of the snapshot, one \<open>sudo chown -R\<close> for entries of the data
  directory, the line that names the snapshot, the repair of the owners of the volumes
  (lines and \<open>sudo chown -R\<close>) and \<open>docker-compose up -d\<close>; then \<open>deploy\<close> returns to
  the directory it was called from and prints its two closing lines.  Each command runs
  on the host that the command before it left.
\<close>

theorem deploy_replace_order:
  assumes ra: "replace_abs = abspath (host s) (cwd s) replace_path"
      and pa: "project_abs = abspath (host s) (cwd s) project_path"
      and root: "chdir_to (host s) (cwd s) ''/'' = Some r"
      and tp: "to_path = replace_abs @ ''_'' @ strftime_utc (now_utc h2)"
      and dt: "data = ''/opt/'' @ last (py_split CHR ''/'' dr) @ ''/data''"
      and bk: "backups = ''/opt/'' @ last (py_split CHR ''/'' dr) @ ''/backup''"
      and sn: "snapshot = ''/opt/'' @ last (py_split CHR ''/'' dr) @ ''/backup/data_'' @
                 strftime_utc (now_utc h6)"
      and st: "steps =
                [Exec dp [''docker-compose'', ''build''],
                 Exec dr [''docker-compose'', ''down''],
                 Exec r [''mv'', replace_abs, to_path],
                 Exec r [''cp'', ''-r'', project_abs, replace_abs],
                 Exec dr [''docker-compose'', ''down''],
                 Exec dr [''sudo'', ''mkdir'', ''-p'', backups],
                 Exec dr [''sudo'', ''cp'', ''-r'', data, snapshot],
                 Exec dr [''sudo'', ''chown'', ''700'', snapshot]]"
  shows "(chdir_to (host s) r replace_abs = Some dr \<and>
          (\<forall>f\<in>set COMPOSE_FILES. \<not> isfile (host s) dr f) \<longrightarrow>
          deploy_action run (Some project_path) (Some replace_path) s =
            (Inl (SysExit 1),
             s\<lparr>cwd := dr,
               trace := trace s @
                 [Print (''ERROR: Could not find any of '' @ repr_list COMPOSE_FILES)]\<rparr>)) \<and>
         (project_at (host s) r replace_abs dr \<and>
          bracket_ok run (host s) r project_abs dp [''docker-compose'', ''build''] h1 \<and>
          bracket_ok run h1 r replace_abs dr [''docker-compose'', ''down''] h2 \<and>
          run r [''mv'', replace_abs, to_path] h2 = Inr h3 \<and>
          run r [''cp'', ''-r'', project_abs, replace_abs] h3 = Inr h4 \<and>
          bracket_ok run h4 r replace_abs dr [''docker-compose'', ''down''] h5 \<and>
          chdir_to h5 r replace_abs = Some dr \<and>
          isdir h5 dr data \<and>
          run dr [''sudo'', ''mkdir'', ''-p'', backups] h5 = Inr h6 \<and>
          run dr [''sudo'', ''cp'', ''-r'', data, snapshot] h6 = Inr h7 \<and>
          run dr [''sudo'', ''chown'', ''700'', snapshot] h7 = Inr h8 \<and>
          listdir h8 dr data = Some entries \<and>
          entry_loop run data snapshot entries
            (s\<lparr>cwd := dr, host := h8, trace := trace s @ steps\<rparr>) = (Inr (), s9) \<and>
          project_at (host s9) r replace_abs dr \<and>
          fix_volumes_ownership run
            (s9\<lparr>trace := trace s9 @ [Print (nl @ ''Backed up data to '' @ snapshot @ nl)]\<rparr>) =
            (Inr (), s10) \<and>
          run dr [''docker-compose'', ''up'', ''-d''] (host s10) = Inr h11 \<and>
          chdir_to h11 dr r = Some r \<and>
          chdir_to h11 r (cwd s) = Some c \<longrightarrow>
          deploy_action run (Some project_path) (Some replace_path) s =
            (Inr (),
             s10\<lparr>cwd := c, host := h11,
                 trace := trace s10 @
                   [Exec dr [''docker-compose'', ''up'', ''-d''],
                    Print (''Backed up project '' @ replace_abs @ '' to '' @ to_path @
                           '' replaced with '' @ project_abs),
                    Print (''You can now delete '' @ project_abs)]\<rparr>) \<and>
          (\<exists>chowns repairs.
             trace s10 = trace s @ steps @ chowns @
               [Print (nl @ ''Backed up data to '' @ snapshot @ nl)] @ repairs \<and>
             (\<forall>e\<in>set chowns. \<exists>u entry. entry \<in> set entries \<and>
                e = Exec dr [''sudo'', ''chown'', ''-R'', u, snapshot @ ''/'' @ entry]) \<and>
             (\<forall>e\<in>set repairs. (\<exists>m. e = Print m) \<or>
                (\<exists>u q. e = Exec dr [''sudo'', ''chown'', ''-R'', u, q]))))"
proof (intro conjI impI)
  assume "chdir_to (host s) r replace_abs = Some dr \<and>
          (\<forall>f\<in>set COMPOSE_FILES. \<not> isfile (host s) dr f)"
  then show "deploy_action run (Some project_path) (Some replace_path) s =
            (Inl (SysExit 1),
             s\<lparr>cwd := dr,
               trace := trace s @
                 [Print (''ERROR: Could not find any of '' @ repr_list COMPOSE_FILES)]\<rparr>)"
    using ra pa root
    by (simp add: deploy_action_def check_compose_file_def change_cwd_eq find_compose_eq find_none prim_defs)
next
  assume H: "project_at (host s) r replace_abs dr \<and>
          bracket_ok run (host s) r project_abs dp [''docker-compose'', ''build''] h1 \<and>
          bracket_ok run h1 r replace_abs dr [''docker-compose'', ''down''] h2 \<and>
          run r [''mv'', replace_abs, to_path] h2 = Inr h3 \<and>
          run r [''cp'', ''-r'', project_abs, replace_abs] h3 = Inr h4 \<and>
          bracket_ok run h4 r replace_abs dr [''docker-compose'', ''down''] h5 \<and>
          chdir_to h5 r replace_abs = Some dr \<and>
          isdir h5 dr data \<and>
          run dr [''sudo'', ''mkdir'', ''-p'', backups] h5 = Inr h6 \<and>
          run dr [''sudo'', ''cp'', ''-r'', data, snapshot] h6 = Inr h7 \<and>
          run dr [''sudo'', ''chown'', ''700'', snapshot] h7 = Inr h8 \<and>
          listdir h8 dr data = Some entries \<and>
          entry_loop run data snapshot entries
            (s\<lparr>cwd := dr, host := h8, trace := trace s @ steps\<rparr>) = (Inr (), s9) \<and>
          project_at (host s9) r replace_abs dr \<and>
          fix_volumes_ownership run
            (s9\<lparr>trace := trace s9 @ [Print (nl @ ''Backed up data to '' @ snapshot @ nl)]\<rparr>) =
            (Inr (), s10) \<and>
          run dr [''docker-compose'', ''up'', ''-d''] (host s10) = Inr h11 \<and>
          chdir_to h11 dr r = Some r \<and>
          chdir_to h11 r (cwd s) = Some c"
  then have p0: "project_at (host s) r replace_abs dr"
    and b1: "bracket_ok run (host s) r project_abs dp [''docker-compose'', ''build''] h1"
    and b2: "bracket_ok run h1 r replace_abs dr [''docker-compose'', ''down''] h2"
    and mv: "run r [''mv'', replace_abs, to_path] h2 = Inr h3"
    and cp: "run r [''cp'', ''-r'', project_abs, replace_abs] h3 = Inr h4"
    and b5: "bracket_ok run h4 r replace_abs dr [''docker-compose'', ''down''] h5"
    and cd5: "chdir_to h5 r replace_abs = Some dr"
    and isd: "isdir h5 dr data"
    and mk: "run dr [''sudo'', ''mkdir'', ''-p'', backups] h5 = Inr h6"
    and cpd: "run dr [''sudo'', ''cp'', ''-r'', data, snapshot] h6 = Inr h7"
    and ch: "run dr [''sudo'', ''chown'', ''700'', snapshot] h7 = Inr h8"
    and ls: "listdir h8 dr data = Some entries"
    and el: "entry_loop run data snapshot entries
            (s\<lparr>cwd := dr, host := h8, trace := trace s @ steps\<rparr>) = (Inr (), s9)"
    and p9: "project_at (host s9) r replace_abs dr"
    and fx: "fix_volumes_ownership run
            (s9\<lparr>trace := trace s9 @ [Print (nl @ ''Backed up data to '' @ snapshot @ nl)]\<rparr>) =
            (Inr (), s10)"
    and up: "run dr [''docker-compose'', ''up'', ''-d''] (host s10) = Inr h11"
    and cd11: "chdir_to h11 dr r = Some r"
    and home: "chdir_to h11 r (cwd s) = Some c"
    by blast+
  define s0 where "s0 = s\<lparr>cwd := r\<rparr>"
  define s1 where "s1 = s0\<lparr>host := h1, trace := trace s0 @ [Exec dp [''docker-compose'', ''build'']]\<rparr>"
  define s2 where "s2 = s1\<lparr>host := h2, trace := trace s1 @ [Exec dr [''docker-compose'', ''down'']]\<rparr>"
  define s3 where "s3 = s2\<lparr>host := h3, trace := trace s2 @ [Exec r [''mv'', replace_abs, to_path]]\<rparr>"
  define s4 where "s4 = s3\<lparr>host := h4, trace := trace s3 @ [Exec r [''cp'', ''-r'', project_abs, replace_abs]]\<rparr>"
  define s5 where "s5 = s4\<lparr>host := h5, trace := trace s4 @ [Exec dr [''docker-compose'', ''down'']]\<rparr>"
  define s9' where "s9' = s9\<lparr>cwd := r, trace := trace s9 @ [Print (nl @ ''Backed up data to '' @ snapshot @ nl)]\<rparr>"
  define s11 where "s11 = s10\<lparr>cwd := r, host := h11,
     trace := trace s10 @ [Exec dr [''docker-compose'', ''up'', ''-d'']]\<rparr>"
  have e0: "os_chdir ''/'' s = (Inr (), s0)"
    using root by (simp add: os_chdir_def s0_def)
  have k0: "check_compose_file (Some replace_abs) s0 = (Inr (), s0)"
    by (rule check_compose_file_run [OF p0]) (simp_all add: s0_def)
  have e1: "build run (Some project_abs) s0 = (Inr (), s1)"
    unfolding build_def s1_def by (rule bracket_run [OF b1]) (simp_all add: s0_def)
  have e2: "down_action run (Some replace_abs) s1 = (Inr (), s2)"
    unfolding down_action_def s2_def by (rule bracket_run [OF b2]) (simp_all add: s0_def s1_def)
  have h2: "now_utc (host s2) = now_utc h2" by (simp add: s2_def)
  have e3: "check_call run [''mv'', replace_abs, to_path] s2 = (Inr (), s3)"
    using mv by (simp add: check_call_eq s3_def s2_def s1_def s0_def)
  have e4: "check_call run [''cp'', ''-r'', project_abs, replace_abs] s3 = (Inr (), s4)"
    using cp by (simp add: check_call_eq s4_def s3_def s2_def s1_def s0_def)
  from b5 have p4: "project_at h4 r replace_abs dr" by (simp add: bracket_ok_def)
  have k4: "check_compose_file (Some replace_abs) s4 = (Inr (), s4)"
    by (rule check_compose_file_run [OF p4]) (simp_all add: s4_def s3_def s2_def s1_def s0_def)
  have e5: "down_action run (Some replace_abs) s4 = (Inr (), s5)"
    unfolding down_action_def s5_def
    by (rule bracket_run [OF b5]) (simp_all add: s4_def s3_def s2_def s1_def s0_def)
  have t5: "s5\<lparr>cwd := dr, host := h8, trace := trace s5 @
       [Exec dr [''sudo'', ''mkdir'', ''-p'', backups],
        Exec dr [''sudo'', ''cp'', ''-r'', data, snapshot],
        Exec dr [''sudo'', ''chown'', ''700'', snapshot]]\<rparr> =
      s\<lparr>cwd := dr, host := h8, trace := trace s @ steps\<rparr>"
    by (simp add: s5_def s4_def s3_def s2_def s1_def s0_def st)
  from p9 have cd9: "chdir_to (host s9) dr r = Some r" by (simp add: project_at_def)
  have e6: "backup run (Some replace_abs) s5 = (Inr (), s9')"
    unfolding s9'_def
    apply (rule backup_run [where h = h5 and r = r and d = dr and ?h6.0 = h6 and ?h7.0 = h7
          and ?h8.0 = h8 and entries = entries and data = data and backups = backups])
                apply (rule cd5)
               apply (simp add: s5_def s4_def s3_def s2_def s1_def s0_def)
              apply (simp add: s5_def)
             apply (rule dt)
            apply (rule bk)
           apply (rule sn)
          apply (rule isd)
         apply (rule mk)
        apply (rule cpd)
       apply (rule ch)
      apply (rule ls)
     apply (simp only: t5 el)
    apply (rule cd9)
    done
  from entry_loop_cwd [OF el] have c9: "cwd s9 = dr" by simp
  have t9: "s9'\<lparr>cwd := dr\<rparr> =
      s9\<lparr>trace := trace s9 @ [Print (nl @ ''Backed up data to '' @ snapshot @ nl)]\<rparr>"
    using c9 by (cases s9) (simp add: s9'_def)
  have e7: "up_action run (Some replace_abs) s9' = (Inr (), s11)"
    unfolding s11_def
    apply (rule up_run [OF p9])
        apply (simp add: s9'_def)
       apply (simp add: s9'_def)
      apply (simp only: t9 fx)
     apply (rule up)
    apply (rule cd11)
    done
  have ba: "backup_action run (Some replace_abs) s4 = (Inr (), s11)"
    unfolding backup_action_def
    by (rule seq_step, rule k4, rule seq_step, rule e5, rule seq_step, rule e6, rule e7)
  have e8: "os_chdir (cwd s) s11 = (Inr (), s11\<lparr>cwd := c\<rparr>)"
    using home by (simp add: os_chdir_def s11_def)
  show "deploy_action run (Some project_path) (Some replace_path) s =
            (Inr (),
             s10\<lparr>cwd := c, host := h11,
                 trace := trace s10 @
                   [Exec dr [''docker-compose'', ''up'', ''-d''],
                    Print (''Backed up project '' @ replace_abs @ '' to '' @ to_path @
                           '' replaced with '' @ project_abs),
                    Print (''You can now delete '' @ project_abs)]\<rparr>)"
    unfolding deploy_action_def option.case bind_abspath bind_getcwd ra [symmetric] pa [symmetric]
    apply (rule seq_step, rule e0)
    apply (rule seq_step, rule k0)
    apply (rule seq_step, rule e1)
    apply (rule seq_step, rule e2)
    apply (simp only: bind_now h2 Let_def tp [symmetric])
    apply (rule seq_step, rule e3)
    apply (rule seq_step, rule e4)
    apply (rule seq_step, rule ba)
    apply (rule seq_step, rule e8)
    apply (simp add: seq_def bind_def print_line_def s11_def)
    done
  from entry_loop_events [OF el] obtain chowns where
    c1: "trace s9 = trace s @ steps @ chowns"
    and c2: "\<forall>e\<in>set chowns. \<exists>u entry. entry \<in> set entries \<and>
                e = Exec dr [''sudo'', ''chown'', ''-R'', u, snapshot @ ''/'' @ entry]"
    by (elim conjE exE) simp
  from fix_volumes_ownership_events [OF fx] obtain repairs where
    r1: "trace s10 = trace s9 @ [Print (nl @ ''Backed up data to '' @ snapshot @ nl)] @ repairs"
    and r2: "\<forall>e\<in>set repairs. (\<exists>m. e = Print m) \<or>
                (\<exists>u q. e = Exec dr [''sudo'', ''chown'', ''-R'', u, q])"
    using c9 by (elim conjE exE) simp
  have "trace s10 = trace s @ steps @ chowns @
               [Print (nl @ ''Backed up data to '' @ snapshot @ nl)] @ repairs"
    using c1 r1 by simp
  with c2 r2 show "\<exists>chowns repairs.
             trace s10 = trace s @ steps @ chowns @
               [Print (nl @ ''Backed up data to '' @ snapshot @ nl)] @ repairs \<and>
             (\<forall>e\<in>set chowns. \<exists>u entry. entry \<in> set entries \<and>
                e = Exec dr [''sudo'', ''chown'', ''-R'', u, snapshot @ ''/'' @ entry]) \<and>
             (\<forall>e\<in>set repairs. (\<exists>m. e = Print m) \<or>
                (\<exists>u q. e = Exec dr [''sudo'', ''chown'', ''-R'', u, q]))"
    by (intro exI [of _ chowns] exI [of _ repairs] conjI)
qed


theorem deploy_replace_order_witness:
  "deploy_action run_tick (Some ''./new'') (Some ''/prod/app'') s_dep =
     (Inr (),
      \<lparr>cwd = ''/home/u'', host = host_at 12,
       trace =
        [Exec ''/home/u/new'' [''docker-compose'', ''build''],
         Exec ''/prod/app'' [''docker-compose'', ''down''],
         Exec ''/'' [''mv'', ''/prod/app'', ''/prod/app_20240102_030407_utc''],
         Exec ''/'' [''cp'', ''-r'', ''/home/u/new'', ''/prod/app''],
         Exec ''/prod/app'' [''docker-compose'', ''down''],
         Exec ''/prod/app'' [''sudo'', ''mkdir'', ''-p'', ''/opt/app/backup''],
         Exec ''/prod/app'' [''sudo'', ''cp'', ''-r'', ''/opt/app/data'',
            ''/opt/app/backup/data_20240102_030411_utc''],
         Exec ''/prod/app'' [''sudo'', ''chown'', ''700'', ''/opt/app/backup/data_20240102_030411_utc''],
         Exec ''/prod/app'' [''sudo'', ''chown'', ''-R'', ''postgres'',
            ''/opt/app/backup/data_20240102_030411_utc/db''],
         Exec ''/prod/app'' [''sudo'', ''chown'', ''-R'', ''alice'',
            ''/opt/app/backup/data_20240102_030411_utc/logs''],
         Print (nl @ ''Backed up data to /opt/app/backup/data_20240102_030411_utc'' @ nl),
         Print (nl @ ''WARNING: Skipping volume, must start with /opt/ : /srv/y'' @ nl),
         Print (nl @ ''WARNING: You should probably create and/or set non root owner of volume folder: /srv/x'' @ nl),
         Print (''sudo mkdir -p /srv/x && sudo chown -R OWNER_HERE /srv/x'' @ nl),
         Exec ''/prod/app'' [''sudo'', ''chown'', ''-R'', ''alice'', ''/opt/app/data''],
         Exec ''/prod/app'' [''docker-compose'', ''up'', ''-d''],
         Print ''Backed up project /prod/app to /prod/app_20240102_030407_utc replaced with /home/u/new'',
         Print ''You can now delete /home/u/new'']\<rparr>) \<and>
   deploy_action run_tick (Some ''./new'') (Some ''/prod/app'')
       \<lparr>cwd = ''/home/u'', host = host_bare, trace = []\<rparr> =
     (Inl (SysExit 1),
      \<lparr>cwd = ''/prod/app'', host = host_bare,
       trace = [Print (''ERROR: Could not find any of '' @ repr_list COMPOSE_FILES)]\<rparr>)"
proof -
  let ?s = "s_dep"
  let ?steps = "[Exec ''/home/u/new'' [''docker-compose'', ''build''],
         Exec ''/prod/app'' [''docker-compose'', ''down''],
         Exec ''/'' [''mv'', ''/prod/app'', ''/prod/app_20240102_030407_utc''],
         Exec ''/'' [''cp'', ''-r'', ''/home/u/new'', ''/prod/app''],
         Exec ''/prod/app'' [''docker-compose'', ''down''],
         Exec ''/prod/app'' [''sudo'', ''mkdir'', ''-p'', ''/opt/app/backup''],
         Exec ''/prod/app'' [''sudo'', ''cp'', ''-r'', ''/opt/app/data'',
            ''/opt/app/backup/data_20240102_030411_utc''],
         Exec ''/prod/app'' [''sudo'', ''chown'', ''700'', ''/opt/app/backup/data_20240102_030411_utc''],
         Exec ''/prod/app'' [''sudo'', ''chown'', ''-R'', ''postgres'',
            ''/opt/app/backup/data_20240102_030411_utc/db''],
         Exec ''/prod/app'' [''sudo'', ''chown'', ''-R'', ''alice'',
            ''/opt/app/backup/data_20240102_030411_utc/logs'']]"
  let ?s9 = "\<lparr>cwd = ''/prod/app'', host = host_at 10, trace = ?steps\<rparr>"
  let ?s10 = "\<lparr>cwd = ''/prod/app'', host = host_at 11,
     trace = ?steps @
        [Print (nl @ ''Backed up data to /opt/app/backup/data_20240102_030411_utc'' @ nl),
         Print (nl @ ''WARNING: Skipping volume, must start with /opt/ : /srv/y'' @ nl),
         Print (nl @ ''WARNING: You should probably create and/or set non root owner of volume folder: /srv/x'' @ nl),
         Print (''sudo mkdir -p /srv/x && sudo chown -R OWNER_HERE /srv/x'' @ nl),
         Exec ''/prod/app'' [''sudo'', ''chown'', ''-R'', ''alice'', ''/opt/app/data'']]\<rparr>"
  have a: "''/prod/app'' = abspath (host ?s) (cwd ?s) ''/prod/app''"
    and b: "''/home/u/new'' = abspath (host ?s) (cwd ?s) ''./new''"
    and c: "chdir_to (host ?s) (cwd ?s) ''/'' = Some ''/''"
    by (simp_all add: s_dep_def host_at_fields host_deploy_def host_app_def)
  have first: "deploy_action run_tick (Some ''./new'') (Some ''/prod/app'') ?s =
      (Inr (), ?s10\<lparr>cwd := ''/home/u'', host := host_at 12,
         trace := trace ?s10 @
        [Exec ''/prod/app'' [''docker-compose'', ''up'', ''-d''],
         Print ''Backed up project /prod/app to /prod/app_20240102_030407_utc replaced with /home/u/new'',
         Print ''You can now delete /home/u/new'']\<rparr>)"
    using deploy_replace_order [where run = run_tick and dr = "''/prod/app''" and dp = "''/home/u/new''"
        and ?h1.0 = "host_at 1" and ?h2.0 = "host_at 2" and ?h3.0 = "host_at 3"
        and ?h4.0 = "host_at 4" and ?h5.0 = "host_at 5" and ?h6.0 = "host_at 6"
        and ?h7.0 = "host_at 7" and ?h8.0 = "host_at 8" and ?h11.0 = "host_at 12"
        and entries = "[''db'', ''logs'']" and ?s9.0 = ?s9 and ?s10.0 = ?s10 and c = "''/home/u''",
        OF a b c refl refl refl refl refl, THEN conjunct2]
    by (simp add: project_at_def bracket_ok_def run_tick_at host_at_fields
        fix_volumes_ownership_def volumes_from_compose_file_def volume_step_def fix_volume_def
        s_dep_def host_deploy_def host_app_def t0_def eval_defs)
  let ?bare = "\<lparr>cwd = ''/home/u'', host = host_bare, trace = []\<rparr>"
  have a': "''/prod/app'' = abspath (host ?bare) (cwd ?bare) ''/prod/app''"
    and b': "''./new'' = abspath (host ?bare) (cwd ?bare) ''./new''"
    and c': "chdir_to (host ?bare) (cwd ?bare) ''/'' = Some ''/''"
    by (simp_all add: host_bare_def)
  have second: "deploy_action run_tick (Some ''./new'') (Some ''/prod/app'') ?bare =
     (Inl (SysExit 1),
      \<lparr>cwd = ''/prod/app'', host = host_bare,
       trace = [Print (''ERROR: Could not find any of '' @ repr_list COMPOSE_FILES)]\<rparr>)"
    using deploy_replace_order [where run = run_tick and dr = "''/prod/app''",
        OF a' b' c' refl refl refl refl refl, THEN conjunct1]
    by (simp add: host_bare_def)
  from first second show ?thesis by simp
qed

section \<open>Running up again\<close>

























end
